theory Spec2Isabelle
  imports Main "HOL-Library.Char_ord" "HOL-Library.List_Lexorder" "HOL-Library.Multiset"
begin

section \<open>lib/datastore/opentsdb.js: the OpenTSDB time series client\<close>

text \<open>
  The module talks to an OpenTSDB cluster: a persistent socket for \<^verbatim>\<open>put\<close> lines and
  HTTP GET requests (superagent) for queries. The embedding below follows the module
  function by function. JavaScript values that the module only passes along (metric
  values) stay polymorphic; values whose JavaScript type matters are \<open>js_value\<close>.
\<close>

subsection \<open>JavaScript values, strings and objects\<close>

datatype js_value =
  JSUndefined | JSNaN | JSNumber int | JSInfinity | JSMinusInfinity | JSString string

text \<open>
  A string is the list of its code units, which are below 256 here. A JavaScript object
  with string keys is the association list of its own properties in insertion order; the
  keys of a well-formed object are distinct. \<open>prop_get\<close> reads an own property.
\<close>

type_synonym 'v js_object = "(string \<times> 'v) list"

definition well_formed :: "'v js_object \<Rightarrow> bool" where
  "well_formed obj = distinct (map fst obj)"

definition prop_get :: "'v js_object \<Rightarrow> string \<Rightarrow> 'v option" where
  "prop_get obj k = map_of obj k"

text \<open>
  The objects of the module are plain objects: what they do not own they inherit from
  \<^verbatim>\<open>Object.prototype\<close>, whose members are functions, but for \<^verbatim>\<open>__proto__\<close>, an accessor
  that gives the prototype itself. A read \<^verbatim>\<open>obj[k]\<close> finds the own property, or else the
  inherited member, or else \<^verbatim>\<open>undefined\<close>.
\<close>

definition object_prototype_members :: "string list" where
  "object_prototype_members =
     [''constructor'', ''toString'', ''toLocaleString'', ''valueOf'', ''hasOwnProperty'',
      ''isPrototypeOf'', ''propertyIsEnumerable'', ''__defineGetter__'', ''__defineSetter__'',
      ''__lookupGetter__'', ''__lookupSetter__'', ''__proto__'']"

datatype 'v lookup = Own 'v | Inherited | Absent

definition prop_read :: "'v js_object \<Rightarrow> string \<Rightarrow> 'v lookup" where
  "prop_read obj k =
     (case map_of obj k of
        Some v \<Rightarrow> Own v
      | None \<Rightarrow> if k \<in> set object_prototype_members then Inherited else Absent)"

text \<open>
  An inherited member used as a property key is converted to a string: the source text of
  a native function, and \<^verbatim>\<open>[object Object]\<close> for the prototype.
\<close>

definition inherited_text :: "string \<Rightarrow> string" where
  "inherited_text k =
     (if k = ''__proto__'' then ''[object Object]''
      else ''function '' @ (if k = ''constructor'' then ''Object'' else k) @
           ''() { [native code] }'')"

text \<open>
  Defining an own property: an existing property keeps its place, a new one is appended.
\<close>

fun prop_set :: "'v js_object \<Rightarrow> string \<Rightarrow> 'v \<Rightarrow> 'v js_object" where
  "prop_set [] k v = [(k, v)]"
| "prop_set ((k', v') # obj) k v =
     (if k' = k then (k, v) # obj else (k', v') # prop_set obj k v)"

text \<open>
  The assignment \<^verbatim>\<open>obj[k] = v\<close>. For the key \<^verbatim>\<open>__proto__\<close>, unless the object owns such a
  property, the inherited setter runs and no own property is made (the setter changes
  the prototype when \<open>v\<close> is an object, which the own properties do not show).
\<close>

definition prop_assign :: "'v js_object \<Rightarrow> string \<Rightarrow> 'v \<Rightarrow> 'v js_object" where
  "prop_assign obj k v =
     (if k = ''__proto__'' \<and> map_of obj k = None then obj else prop_set obj k v)"

definition is_digit :: "char \<Rightarrow> bool" where
  "is_digit c = (CHR ''0'' \<le> c \<and> c \<le> CHR ''9'')"

definition digit_value :: "char \<Rightarrow> int" where
  "digit_value c = of_char c - of_char CHR ''0''"

text \<open>The value of a string of decimal digits, most significant digit first.\<close>

definition decimal_value :: "string \<Rightarrow> int" where
  "decimal_value s = foldl (\<lambda>acc c. acc * 10 + digit_value c) 0 s"

definition is_decimal :: "string \<Rightarrow> bool" where
  "is_decimal s = (s \<noteq> [] \<and> list_all is_digit s)"

text \<open>
  An array index is a canonical decimal string (no leading zero except \<^verbatim>\<open>"0"\<close> itself)
  below \<open>2^32 - 1\<close>. \<^verbatim>\<open>Object.keys\<close> lists the array indices first, in ascending numeric
  order, then the other keys in insertion order.
\<close>

definition is_array_index :: "string \<Rightarrow> bool" where
  "is_array_index s =
     (is_decimal s \<and> (s = ''0'' \<or> hd s \<noteq> CHR ''0'') \<and> decimal_value s < 2 ^ 32 - 1)"

definition object_keys :: "'v js_object \<Rightarrow> string list" where
  "object_keys obj =
     sort_key decimal_value (filter is_array_index (map fst obj)) @
     filter (\<lambda>k. \<not> is_array_index k) (map fst obj)"

text \<open>
  \<^verbatim>\<open>Array.prototype.sort\<close> without a comparator orders strings by their code units, that
  is lexicographically; this is the order of \<open>string\<close> as a list of characters.
\<close>

definition array_sort :: "string list \<Rightarrow> string list" where
  "array_sort ks = sort ks"

text \<open>
  A JavaScript number is a double. \<open>to_number n\<close> is the double of the integer
  \<open>n \<ge> 0\<close>: \<open>n\<close> itself below \<open>2^53\<close>, and above it \<open>n\<close> rounded to 53 significant
  bits, a tie going to the even neighbour, or infinity from \<open>2^1024\<close> on.
\<close>

function bit_length :: "int \<Rightarrow> nat" where
  "bit_length n = (if n \<le> 0 then 0 else Suc (bit_length (n div 2)))"
  by pat_completeness auto
termination
  by (relation "measure nat") auto

declare bit_length.simps [simp del]

definition to_number :: "int \<Rightarrow> js_value" where
  "to_number n =
     (if n < 2 ^ 53 then JSNumber n
      else
        (let e = bit_length n - 53;
             q = n div 2 ^ e;
             r = n mod 2 ^ e;
             m = (if 2 * r > 2 ^ e \<or> (2 * r = 2 ^ e \<and> odd q) then q + 1 else q)
         in if m * 2 ^ e \<ge> 2 ^ 1024 then JSInfinity else JSNumber (m * 2 ^ e)))"

definition negate :: "js_value \<Rightarrow> js_value" where
  "negate x =
     (case x of
        JSNumber n \<Rightarrow> JSNumber (- n)
      | JSInfinity \<Rightarrow> JSMinusInfinity
      | JSMinusInfinity \<Rightarrow> JSInfinity
      | _ \<Rightarrow> x)"

text \<open>
  \<^verbatim>\<open>parseInt(s)\<close> with no radix: leading white space is skipped, then an optional sign,
  then \<^verbatim>\<open>0x\<close> or \<^verbatim>\<open>0X\<close> selects radix 16, and the longest prefix of digits of the radix
  is the value, as a double; with no digit the result is \<^verbatim>\<open>NaN\<close>. (Zero keeps no sign
  here.)
\<close>

definition is_white_space :: "char \<Rightarrow> bool" where
  "is_white_space c =
     (c \<in> set [CHR '' '', CHR 0x09, CHR 0x0A, CHR 0x0B, CHR 0x0C, CHR 0x0D, CHR 0xA0])"

definition radix_digit :: "int \<Rightarrow> char \<Rightarrow> int option" where
  "radix_digit radix c =
     (let d = (if CHR ''0'' \<le> c \<and> c \<le> CHR ''9'' then Some (of_char c - of_char CHR ''0'')
               else if CHR ''a'' \<le> c \<and> c \<le> CHR ''z'' then Some (of_char c - of_char CHR ''a'' + 10)
               else if CHR ''A'' \<le> c \<and> c \<le> CHR ''Z'' then Some (of_char c - of_char CHR ''A'' + 10)
               else None)
      in case d of None \<Rightarrow> None | Some n \<Rightarrow> if n < radix then Some n else None)"

definition radix_value :: "int \<Rightarrow> string \<Rightarrow> int" where
  "radix_value radix s =
     foldl (\<lambda>acc c. acc * radix + (case radix_digit radix c of Some d \<Rightarrow> d | None \<Rightarrow> 0)) 0 s"

definition parseInt :: "string \<Rightarrow> js_value" where
  "parseInt input =
     (let s = dropWhile is_white_space input;
          negative = (s \<noteq> [] \<and> hd s = CHR ''-'');
          s1 = (if s \<noteq> [] \<and> (hd s = CHR ''+'' \<or> hd s = CHR ''-'') then tl s else s);
          hex = (take 2 s1 = ''0x'' \<or> take 2 s1 = ''0X'');
          radix = (if hex then 16 else 10);
          s2 = (if hex then drop 2 s1 else s1);
          z = takeWhile (\<lambda>c. radix_digit radix c \<noteq> None) s2
      in if z = [] then JSNaN
         else if negative then negate (to_number (radix_value radix z))
         else to_number (radix_value radix z))"

subsection \<open>Points\<close>

record 'v point =
  timestamp :: js_value
  "value" :: 'v

text \<open>
  \<^verbatim>\<open>responseToLines\<close>: the keys of \<open>dps\<close>, sorted by the default sort, each mapped to a
  point whose timestamp is the parsed key and whose value is \<^verbatim>\<open>dps[key]\<close>.
\<close>

definition responseToLines :: "'v js_object \<Rightarrow> 'v option point list" where
  "responseToLines dps =
     map (\<lambda>key. \<lparr>timestamp = parseInt key, value = prop_get dps key\<rparr>)
       (array_sort (object_keys dps))"

subsection \<open>Strings of numbers, substring search\<close>

text \<open>The decimal digits of a non-negative integer, as number-to-string conversion writes them.\<close>

function digits :: "int \<Rightarrow> string" where
  "digits n = (if n < 10 then [char_of (48 + n)] else digits (n div 10) @ [char_of (48 + n mod 10)])"
  by pat_completeness auto
termination
  by (relation "measure nat") auto

declare digits.simps [simp del]

definition number_toString :: "int \<Rightarrow> string" where
  "number_toString n = (if n < 0 then ''-'' @ digits (- n) else digits n)"

text \<open>\<^verbatim>\<open>s.indexOf(needle)\<close>: the first position where \<open>needle\<close> starts, or \<open>-1\<close>.\<close>

fun indexOf_from :: "string \<Rightarrow> string \<Rightarrow> int \<Rightarrow> int" where
  "indexOf_from [] needle i = (if needle = [] then i else - 1)"
| "indexOf_from (c # cs) needle i =
     (if take (length needle) (c # cs) = needle then i else indexOf_from cs needle (i + 1))"

definition indexOf :: "string \<Rightarrow> string \<Rightarrow> int" where
  "indexOf s needle = indexOf_from s needle 0"

text \<open>\<^verbatim>\<open>parts.join(sep)\<close>.\<close>

fun join :: "string \<Rightarrow> string list \<Rightarrow> string" where
  "join sep [] = []"
| "join sep [x] = x"
| "join sep (x # y # ys) = x @ sep @ join sep (y # ys)"

subsection \<open>Effects, configuration, HTTP replies\<close>

text \<open>
  What the module does to the outside world is recorded as a list of effects, in order:
  log lines, statsd counters and timers (the measured time itself is not modelled), HTTP
  requests, socket operations, callbacks handed back to the caller of the socket
  functions, and the end of the process.
\<close>

datatype effect =
    LogInfo string
  | LogError string
  | LogFatal string
  | StatIncrement string
  | StatTiming string
  | HttpGet string
  | NetCreateConnection string string nat
  | SocketWrite nat string
  | SocketDestroy nat
  | ConnectCallback nat nat
  | CallerCallback nat "string option"
  | ProcessExit int
  | Uncaught string

text \<open>\<^verbatim>\<open>localConfig.get('opentsdb:host')\<close> and \<^verbatim>\<open>localConfig.get('opentsdb:port')\<close>.\<close>

record config =
  opentsdb_host :: string
  opentsdb_port :: string

text \<open>
  The arguments superagent passes to the \<^verbatim>\<open>end\<close> callback: \<open>err\<close> (a transport or HTTP
  error, by its text, or null) and \<open>res\<close> (the response, or undefined). \<^verbatim>\<open>res.error\<close> is
  false or an error object with the HTTP status; \<^verbatim>\<open>res.body\<close> is the parsed JSON body.
\<close>

record http_error =
  status :: int
  message :: string

datatype 'e body =
    NoBody
  | ErrorBody "string option"
  | ObjectBody
  | ArrayBody "'e list"

record 'e response =
  error :: "http_error option"
  body :: "'e body"

type_synonym 'e reply = "string option \<times> 'e response option"

text \<open>One series of an \<^verbatim>\<open>/api/query\<close> answer, one entry of an \<^verbatim>\<open>/api/query/last\<close> answer.\<close>

record 'v series =
  series_tags :: "string js_object"
  dps :: "'v js_object"

record 'v last_point =
  ms_timestamp :: int
  last_value :: 'v

record range_filter =
  filter_start :: int
  filter_end :: int
  aggregation :: string
  qualifiers :: "string list"
  tags :: "string js_object option"

datatype tsdb_error = TsdbError string

text \<open>
  How a call ends: the caller's callback is called with \<open>err\<close> and a result, or an
  exception leaves the function.
\<close>

datatype 'r outcome = Callback "tsdb_error option" 'r | Throws string

subsection \<open>Queries over HTTP\<close>

text \<open>
  \<^verbatim>\<open>hashToString\<close>: all tag values here are strings, so the \<^verbatim>\<open>typeof\<close> test of the source
  passes for every field.
\<close>

definition hashToString :: "string js_object \<Rightarrow> string" where
  "hashToString obj =
     foldl (\<lambda>retval field.
              case prop_get obj field of
                None \<Rightarrow> retval
              | Some v \<Rightarrow> (if retval \<noteq> [] then retval @ '','' else retval) @ field @ ''='' @ v)
       [] (object_keys obj)"

definition logTsdbRequest :: "string \<Rightarrow> effect list" where
  "logTsdbRequest uri = [LogInfo (''Outgoing TSDB request: '' @ uri)]"

text \<open>The URIs requested, as a list of effects shows them.\<close>

definition http_requests :: "effect list \<Rightarrow> string list" where
  "http_requests es = concat (map (\<lambda>e. case e of HttpGet uri \<Rightarrow> [uri] | _ \<Rightarrow> []) es)"

text \<open>
  The message test shared by both query functions:
  \<^verbatim>\<open>res.body && res.body.error && res.body.error.message &&
  res.body.error.message.indexOf('No such name for ') > -1\<close>.
  \<open>ErrorBody m\<close> is a body with an \<^verbatim>\<open>error\<close> member whose message is \<open>m\<close>.
\<close>

definition no_such_name :: "'e body \<Rightarrow> bool" where
  "no_such_name b =
     (case b of
        ErrorBody (Some m) \<Rightarrow> m \<noteq> [] \<and> indexOf m ''No such name for '' > - 1
      | _ \<Rightarrow> False)"

text \<open>\<^verbatim>\<open>res.error.status === n\<close>; the status of \<^verbatim>\<open>false\<close> is undefined and equals no number.\<close>

definition status_is :: "'e response \<Rightarrow> int \<Rightarrow> bool" where
  "status_is res n = (case error res of None \<Rightarrow> False | Some e \<Rightarrow> status e = n)"

text \<open>
  \<^verbatim>\<open>err || res.error.message\<close>, evaluated where \<^verbatim>\<open>err || res.error\<close> holds. The text logged
  before it is \<^verbatim>\<open>'Error reading from OpenTSDB ' + uri + ': ' + err || res.error.message\<close>,
  where \<^verbatim>\<open>+\<close> binds tighter than \<^verbatim>\<open>||\<close>: always the concatenation with \<open>err\<close>.
\<close>

definition error_payload :: "string option \<Rightarrow> 'e response option \<Rightarrow> string" where
  "error_payload err res =
     (case err of
        Some e \<Rightarrow> e
      | None \<Rightarrow> (case res of
                   Some r \<Rightarrow> (case error r of Some he \<Rightarrow> message he | None \<Rightarrow> [])
                 | None \<Rightarrow> []))"

definition error_log_line :: "string \<Rightarrow> string option \<Rightarrow> string" where
  "error_log_line uri err =
     ''Error reading from OpenTSDB '' @ uri @ '': '' @ (case err of None \<Rightarrow> ''null'' | Some e \<Rightarrow> e)"

definition queryRange_uri :: "config \<Rightarrow> string \<Rightarrow> range_filter \<Rightarrow> string js_object \<Rightarrow> string" where
  "queryRange_uri cfg metric f tgs =
     ''http://'' @ opentsdb_host cfg @ '':'' @ opentsdb_port cfg @
     ''/api/query?start='' @ number_toString (filter_start f) @
     ''&end='' @ number_toString (filter_end f) @
     ''&m='' @ aggregation f @ '':'' @
     (if qualifiers f \<noteq> [] then join '':'' (qualifiers f) @ '':'' else []) @
     metric @
     (if object_keys tgs \<noteq> [] then ''{'' @ hashToString tgs @ ''}'' else [])"

text \<open>The callback given to \<^verbatim>\<open>request.get(uri).end\<close> in \<^verbatim>\<open>queryRange\<close>.\<close>

fun queryRange_end :: "string \<Rightarrow> 'e reply \<Rightarrow> effect list \<times> 'e body outcome" where
  "queryRange_end uri (None, None) = ([], Throws ''TypeError'')"
| "queryRange_end uri (Some e, None) =
     ([LogError (error_log_line uri (Some e)),
       StatIncrement ''opentsdb.query.queryRange.failure''],
      Callback (Some (TsdbError (error_payload (Some e) (None :: 'e response option)))) NoBody)"
| "queryRange_end uri (err, Some res) =
     (if err \<noteq> None \<or> error res \<noteq> None then
        if status_is res 400 \<or> (status_is res 500 \<and> no_such_name (body res)) then
          ([StatTiming ''opentsdb.query.queryRange.time''], Callback None (ArrayBody []))
        else
          ([LogError (error_log_line uri err),
            StatIncrement ''opentsdb.query.queryRange.failure''],
           Callback (Some (TsdbError (error_payload err (Some res)))) NoBody)
      else
        ([StatTiming ''opentsdb.query.queryRange.time''],
         if body res \<noteq> NoBody then Callback None (body res) else Callback None (ArrayBody [])))"

text \<open>
  \<^verbatim>\<open>queryRange\<close>: \<open>request_get\<close> is the store, answering a URI. \<^verbatim>\<open>Object.keys(filter.tags)\<close>
  throws when the filter has no tags. The start and end times are whole seconds
  (\<^verbatim>\<open>moment.unix()\<close>), which \<^verbatim>\<open>Math.floor\<close> and \<^verbatim>\<open>Math.ceil\<close> leave as they are.
\<close>

definition queryRange ::
  "config \<Rightarrow> (string \<Rightarrow> 'e reply) \<Rightarrow> string \<Rightarrow> range_filter \<Rightarrow> effect list \<times> 'e body outcome" where
  "queryRange cfg request_get metric f =
     (case tags f of
        None \<Rightarrow> ([], Throws ''TypeError'')
      | Some tgs \<Rightarrow>
          (let uri = queryRange_uri cfg metric f tgs;
               (effects, result) = queryRange_end uri (request_get uri)
           in (logTsdbRequest uri @ [HttpGet uri] @ effects, result)))"

text \<open>\<^verbatim>\<open>getTimeSeriesRange\<close>: the callback it gives to \<^verbatim>\<open>queryRange\<close>, then the function.\<close>

fun getTimeSeriesRange_callback :: "'v series body outcome \<Rightarrow> 'v option point list outcome" where
  "getTimeSeriesRange_callback (Throws e) = Throws e"
| "getTimeSeriesRange_callback (Callback None (ArrayBody [s])) =
     Callback None (responseToLines (dps s))"
| "getTimeSeriesRange_callback (Callback err b) = Callback err []"

definition getTimeSeriesRange ::
  "config \<Rightarrow> (string \<Rightarrow> 'v series reply) \<Rightarrow> string \<Rightarrow> range_filter \<Rightarrow>
   effect list \<times> 'v option point list outcome" where
  "getTimeSeriesRange cfg request_get metric f =
     (let (effects, result) = queryRange cfg request_get metric f
      in (effects, getTimeSeriesRange_callback result))"

text \<open>
  \<^verbatim>\<open>getTimeSeriesRangeList\<close>. First the filter is completed: a missing \<^verbatim>\<open>tags\<close> becomes
  \<^verbatim>\<open>{}\<close>, and where \<^verbatim>\<open>!filter.tags[group]\<close> holds, the group tag becomes \<^verbatim>\<open>'*'\<close>. The
  test holds for an absent and for an empty tag; it fails for a group tag that has the
  name of a member of \<^verbatim>\<open>Object.prototype\<close>, since the read finds that member.
\<close>

definition ensure_group_tag :: "range_filter \<Rightarrow> string \<Rightarrow> range_filter" where
  "ensure_group_tag f grp =
     (let tgs = (case tags f of None \<Rightarrow> [] | Some t \<Rightarrow> t);
          tgs' = (case prop_read tgs grp of
                    Absent \<Rightarrow> prop_assign tgs grp ''*''
                  | Inherited \<Rightarrow> tgs
                  | Own v \<Rightarrow> if v = [] then prop_assign tgs grp ''*'' else tgs)
      in f\<lparr>tags := Some tgs'\<rparr>)"

text \<open>
  \<^verbatim>\<open>retval[series.tags[group]] = responseToLines(series.dps)\<close> for each series in turn;
  a series without the group tag is filed under the key \<^verbatim>\<open>"undefined"\<close>, or under the
  text of the inherited member when the group tag has the name of one.
\<close>

definition group_key :: "string \<Rightarrow> 'v series \<Rightarrow> string" where
  "group_key grp s =
     (case prop_read (series_tags s) grp of
        Own v \<Rightarrow> v
      | Inherited \<Rightarrow> inherited_text grp
      | Absent \<Rightarrow> ''undefined'')"

definition group_series ::
  "string \<Rightarrow> 'v series list \<Rightarrow> 'v option point list js_object" where
  "group_series grp ss =
     foldl (\<lambda>retval s. prop_assign retval (group_key grp s) (responseToLines (dps s))) [] ss"

fun getTimeSeriesRangeList_callback ::
  "string \<Rightarrow> 'v series body outcome \<Rightarrow> 'v option point list js_object outcome" where
  "getTimeSeriesRangeList_callback grp (Throws e) = Throws e"
| "getTimeSeriesRangeList_callback grp (Callback (Some e) b) = Callback (Some e) []"
| "getTimeSeriesRangeList_callback grp (Callback None (ArrayBody ss)) =
     Callback None (group_series grp ss)"
| "getTimeSeriesRangeList_callback grp (Callback None b) = Throws ''TypeError''"

definition getTimeSeriesRangeList ::
  "config \<Rightarrow> (string \<Rightarrow> 'v series reply) \<Rightarrow> string \<Rightarrow> range_filter \<Rightarrow> string \<Rightarrow>
   effect list \<times> 'v option point list js_object outcome" where
  "getTimeSeriesRangeList cfg request_get metric f grp =
     (let (effects, result) = queryRange cfg request_get metric (ensure_group_tag f grp)
      in (effects, getTimeSeriesRangeList_callback grp result))"

text \<open>
  \<^verbatim>\<open>getLatestTimeSeries\<close>. \<^verbatim>\<open>Number(point.timestamp / 1000).toFixed(0)\<close> divides, rounds
  to the nearest integer (a tie goes away from zero) and returns the decimal digits as a
  string. For a millisecond count below \<open>2^53\<close> the division by 1000 in doubles rounds
  as the exact quotient does.
\<close>

definition toFixed0_div1000 :: "int \<Rightarrow> string" where
  "toFixed0_div1000 ms =
     (if ms < 0 then ''-'' @ digits ((- ms + 500) div 1000) else digits ((ms + 500) div 1000))"

definition getLatestTimeSeries_uri :: "config \<Rightarrow> string \<Rightarrow> string js_object \<Rightarrow> string" where
  "getLatestTimeSeries_uri cfg metric tgs =
     ''http://'' @ opentsdb_host cfg @ '':'' @ opentsdb_port cfg @
     ''/api/query/last?back_scan=96&timeseries='' @ metric @
     (if object_keys tgs \<noteq> [] then ''{'' @ hashToString tgs @ ''}'' else [])"

fun getLatestTimeSeries_end ::
  "string \<Rightarrow> 'v last_point reply \<Rightarrow> effect list \<times> 'v point option outcome" where
  "getLatestTimeSeries_end uri (None, None) = ([], Throws ''TypeError'')"
| "getLatestTimeSeries_end uri (Some e, None) =
     ([LogError (error_log_line uri (Some e)),
       StatIncrement ''opentsdb.query.getLatestTimeSeries.failure''],
      Callback (Some (TsdbError (error_payload (Some e) (None :: 'v last_point response option)))) None)"
| "getLatestTimeSeries_end uri (err, Some res) =
     (if err \<noteq> None \<or> error res \<noteq> None then
        if (status_is res 400 \<or> status_is res 500) \<and> no_such_name (body res) then
          ([StatTiming ''opentsdb.query.getLatestTimeSeries.time''], Callback None None)
        else
          ([LogError (error_log_line uri err),
            StatIncrement ''opentsdb.query.getLatestTimeSeries.failure''],
           Callback (Some (TsdbError (error_payload err (Some res)))) None)
      else
        ([StatTiming ''opentsdb.query.getLatestTimeSeries.time''],
         case body res of
           ArrayBody (p # ps) \<Rightarrow>
             Callback None
               (Some \<lparr>timestamp = JSString (toFixed0_div1000 (ms_timestamp p)),
                      value = last_value p\<rparr>)
         | _ \<Rightarrow> Callback None None))"

definition getLatestTimeSeries ::
  "config \<Rightarrow> (string \<Rightarrow> 'v last_point reply) \<Rightarrow> string \<Rightarrow> string js_object \<Rightarrow>
   effect list \<times> 'v point option outcome" where
  "getLatestTimeSeries cfg request_get metric tgs =
     (let uri = getLatestTimeSeries_uri cfg metric tgs;
          (effects, result) = getLatestTimeSeries_end uri (request_get uri)
      in (logTsdbRequest uri @ [HttpGet uri] @ effects, result))"

subsection \<open>The socket connection\<close>

text \<open>
  The module keeps the configuration and the socket in two variables, \<open>localConfig\<close>
  and \<open>opentsdb\<close>. Sockets and callbacks are named by numbers. The state also holds
  what the event loop knows: the sockets still connecting, each with the callback
  \<^verbatim>\<open>connect\<close> was given; the sockets that carry the error listener installed after the
  connection was made; the sockets whose \<^verbatim>\<open>writable\<close> is true; and the callbacks handed
  to \<^verbatim>\<open>socket.write\<close> and not yet called.
\<close>

text \<open>
  The callback of \<^verbatim>\<open>connect\<close> is the application's own one, or the closure
  \<^verbatim>\<open>sendTimeSeries\<close> of a call of \<^verbatim>\<open>addTimeSeries\<close> with its metric line
  (\<^verbatim>\<open>metric.toString()\<close>) and its caller's callback.
\<close>

datatype connect_callback = AppCallback nat | SendTimeSeries string nat

record tsdb_state =
  localConfig :: "config option"
  opentsdb :: "nat option"
  connecting :: "(nat \<times> connect_callback) list"
  listening :: "nat list"
  writable :: "nat list"
  writing :: "nat list"
  next_socket :: nat
  trace :: "effect list"
  exited :: bool

definition emit :: "effect list \<Rightarrow> tsdb_state \<Rightarrow> tsdb_state" where
  "emit es s = s\<lparr>trace := trace s @ es\<rparr>"

text \<open>An exception no one catches ends the process as well.\<close>

definition uncaught :: "string \<Rightarrow> tsdb_state \<Rightarrow> tsdb_state" where
  "uncaught e s = emit [Uncaught e] (s\<lparr>exited := True\<rparr>)"

text \<open>\<^verbatim>\<open>connectionError\<close>, local to \<^verbatim>\<open>connect\<close>: count, log, \<^verbatim>\<open>process.exit(1)\<close>.\<close>

definition connectionError :: "string \<Rightarrow> tsdb_state \<Rightarrow> tsdb_state" where
  "connectionError err s =
     emit [StatIncrement ''opentsdb.failure'',
           LogFatal (''OpenTSDB connection error: '' @ err),
           ProcessExit 1]
       (s\<lparr>exited := True\<rparr>)"

text \<open>
  \<^verbatim>\<open>sendTimeSeries(err)\<close>, local to \<^verbatim>\<open>addTimeSeries\<close>. \<open>accepted\<close> is what
  \<^verbatim>\<open>opentsdb.write\<close> returns: false when the data was queued because the buffer is full.
  The caller's callback is handed to the socket, which calls it when the data is out.
\<close>

definition sendTimeSeries ::
  "string \<Rightarrow> nat \<Rightarrow> bool \<Rightarrow> string option \<Rightarrow> tsdb_state \<Rightarrow> tsdb_state" where
  "sendTimeSeries metric callback accepted err s =
     (case err of
        Some e \<Rightarrow> emit [CallerCallback callback (Some e)] s
      | None \<Rightarrow>
          (case opentsdb s of
             None \<Rightarrow> uncaught ''TypeError'' s
           | Some sock \<Rightarrow>
               (let s' = emit [SocketWrite sock (''put '' @ metric @ [CHR 0x0A])]
                           (s\<lparr>writing := writing s @ [callback]\<rparr>)
                in if \<not> accepted then
                     emit [StatIncrement ''opentsdb.write.delayed'',
                           LogInfo ''OpenTSDB data queued for writing''] s'
                   else emit [StatTiming ''opentsdb.write.time''] s')))"

text \<open>
  \<^verbatim>\<open>connectionEstablished\<close>, local to \<^verbatim>\<open>connect\<close>: the socket becomes \<open>opentsdb\<close>, gets
  the error listener and loses the listener \<^verbatim>\<open>connectionError\<close>; then
  \<^verbatim>\<open>callback(null, socket)\<close>.
\<close>

definition connectionEstablished ::
  "nat \<Rightarrow> connect_callback \<Rightarrow> bool \<Rightarrow> tsdb_state \<Rightarrow> tsdb_state" where
  "connectionEstablished socket callback accepted s =
     (let s1 = emit [LogInfo ''Connected to OpenTSDB.''] s;
          s2 = s1\<lparr>opentsdb := Some socket,
                  listening := listening s1 @ [socket],
                  connecting := filter (\<lambda>(k, c). k \<noteq> socket) (connecting s1)\<rparr>
      in case callback of
           AppCallback cb \<Rightarrow> emit [ConnectCallback cb socket] s2
         | SendTimeSeries metric cb \<Rightarrow> sendTimeSeries metric cb accepted None s2)"

text \<open>
  The error listener that \<^verbatim>\<open>connectionEstablished\<close> installs. It works on the variable
  \<open>opentsdb\<close>, whichever socket raised the error.
\<close>

definition networkError :: "string \<Rightarrow> tsdb_state \<Rightarrow> tsdb_state" where
  "networkError err s =
     (let s1 = emit [LogError (''OpenTSDB  network error: '' @ err)] s
      in case opentsdb s1 of
           None \<Rightarrow> uncaught ''TypeError'' s1
         | Some sock \<Rightarrow>
             (emit [SocketDestroy sock] s1)
               \<lparr>opentsdb := None, writable := removeAll sock (writable s1)\<rparr>)"

text \<open>
  \<^verbatim>\<open>connect(nconf, callback)\<close>. \<open>throws\<close> is the exception of \<^verbatim>\<open>net.createConnection\<close>,
  if it raises one; reading the configuration of an undefined \<open>nconf\<close> raises inside the
  same \<^verbatim>\<open>try\<close>. Otherwise a new socket waits for its \<^verbatim>\<open>connect\<close> or \<^verbatim>\<open>error\<close> event.
\<close>

definition connect ::
  "config option \<Rightarrow> connect_callback \<Rightarrow> string option \<Rightarrow> tsdb_state \<Rightarrow> tsdb_state" where
  "connect nconf callback throws s =
     (let s1 = s\<lparr>localConfig := nconf\<rparr>
      in case nconf of
           None \<Rightarrow> connectionError ''TypeError'' s1
         | Some cfg \<Rightarrow>
             (case throws of
                Some err \<Rightarrow> connectionError err s1
              | None \<Rightarrow>
                  (let socket = next_socket s1
                   in emit [NetCreateConnection (opentsdb_port cfg) (opentsdb_host cfg) socket]
                        (s1\<lparr>next_socket := Suc socket,
                            connecting := connecting s1 @ [(socket, callback)]\<rparr>))))"

text \<open>\<^verbatim>\<open>!opentsdb || !opentsdb.writable\<close>\<close>

definition needs_reconnect :: "tsdb_state \<Rightarrow> bool" where
  "needs_reconnect s =
     (case opentsdb s of None \<Rightarrow> True | Some sock \<Rightarrow> sock \<notin> set (writable s))"

definition addTimeSeries ::
  "string \<Rightarrow> nat \<Rightarrow> string option \<Rightarrow> bool \<Rightarrow> tsdb_state \<Rightarrow> tsdb_state" where
  "addTimeSeries metric callback throws accepted s =
     (if needs_reconnect s then
        connect (localConfig s) (SendTimeSeries metric callback) throws s
      else sendTimeSeries metric callback accepted None s)"

text \<open>
  The event loop runs one handler at a time, to its end. An event is a call of an
  exported function or something the network does: a connecting socket connects, a socket
  raises an error, a socket stops being writable, a write is finished and its callback
  called. The calls and the \<^verbatim>\<open>connect\<close> event carry the answers the handler gets from
  the network while it runs (\<open>throws\<close>, \<open>accepted\<close>). After the end of the process
  nothing runs.
\<close>

datatype event =
    Call_connect config nat "string option"
  | Call_addTimeSeries string nat "string option" bool
  | Socket_connect nat bool
  | Socket_error nat string
  | Socket_end nat
  | Write_done nat "string option"

fun handle :: "event \<Rightarrow> tsdb_state \<Rightarrow> tsdb_state" where
  "handle (Call_connect nconf cb throws) s = connect (Some nconf) (AppCallback cb) throws s"
| "handle (Call_addTimeSeries metric cb throws accepted) s =
     addTimeSeries metric cb throws accepted s"
| "handle (Socket_connect sock accepted) s =
     (case map_of (connecting s) sock of
        None \<Rightarrow> s
      | Some callback \<Rightarrow>
          connectionEstablished sock callback accepted (s\<lparr>writable := writable s @ [sock]\<rparr>))"
| "handle (Socket_error sock err) s =
     (if sock \<in> fst ` set (connecting s) then connectionError err s
      else if sock \<in> set (listening s) then networkError err s
      else s)"
| "handle (Socket_end sock) s = s\<lparr>writable := removeAll sock (writable s)\<rparr>"
| "handle (Write_done cb err) s =
     (if cb \<in> set (writing s)
      then emit [CallerCallback cb err] (s\<lparr>writing := remove1 cb (writing s)\<rparr>)
      else s)"

definition step :: "tsdb_state \<Rightarrow> event \<Rightarrow> tsdb_state" where
  "step s ev = (if exited s then s else handle ev s)"

definition run :: "tsdb_state \<Rightarrow> event list \<Rightarrow> tsdb_state" where
  "run s evs = foldl step s evs"

text \<open>The module as loaded: nothing configured, no socket.\<close>

definition initial :: tsdb_state where
  "initial = \<lparr>localConfig = None, opentsdb = None, connecting = [], listening = [],
              writable = [], writing = [], next_socket = 0, trace = [], exited = False\<rparr>"

text \<open>The network calls for new connections, and the callbacks to callers, in a trace.\<close>

definition connection_attempts :: "effect list \<Rightarrow> nat" where
  "connection_attempts es =
     length (filter (\<lambda>e. case e of NetCreateConnection p h k \<Rightarrow> True | _ \<Rightarrow> False) es)"

definition callbacks_of :: "effect list \<Rightarrow> effect list" where
  "callbacks_of es =
     filter (\<lambda>e. case e of CallerCallback c r \<Rightarrow> True | ConnectCallback c k \<Rightarrow> True | _ \<Rightarrow> False) es"

text \<open>The callbacks given back to the callers of \<^verbatim>\<open>addTimeSeries\<close>, with their \<open>err\<close>.\<close>

definition caller_callbacks :: "effect list \<Rightarrow> (nat \<times> string option) list" where
  "caller_callbacks es =
     concat (map (\<lambda>e. case e of CallerCallback c r \<Rightarrow> [(c, r)] | _ \<Rightarrow> []) es)"

text \<open>
  Socket names are given out in order, so the name of the next socket is not in use:
  every socket still connecting has a smaller name.
\<close>

definition sockets_known :: "tsdb_state \<Rightarrow> bool" where
  "sockets_known s = list_all (\<lambda>(k, c). k < next_socket s) (connecting s)"

subsection \<open>Example inputs\<close>

definition dps_example :: "int js_object" where
  "dps_example = [(''100'', 5), (''20'', 3)]"

definition dps_seconds :: "int js_object" where
  "dps_seconds = [(''1700000100'', 5), (''1700000020'', 3)]"

definition example_config :: config where
  "example_config = \<lparr>opentsdb_host = ''tsdb.local'', opentsdb_port = ''4242''\<rparr>"

definition example_filter :: range_filter where
  "example_filter = \<lparr>filter_start = 1700000000, filter_end = 1700003600,
     aggregation = ''avg'', qualifiers = [''rate''], tags = Some [(''hpc'', ''42'')]\<rparr>"

text \<open>A 400 whose message does not name an unknown identifier; a 503 with no body.\<close>

definition bad_request_reply :: "'e reply" where
  "bad_request_reply =
     (Some ''Error: Bad Request'',
      Some \<lparr>error = Some \<lparr>status = 400, message = ''cannot GET (400)''\<rparr>,
            body = ErrorBody (Some ''Unable to parse the given URI'')\<rparr>)"


text \<open>A good answer of \<^verbatim>\<open>/api/query/last\<close>, and one of \<^verbatim>\<open>/api/query\<close> with two series.\<close>

definition latest_reply :: "int last_point reply" where
  "latest_reply =
     (None, Some \<lparr>error = None,
                  body = ArrayBody [\<lparr>ms_timestamp = 1700000000000, last_value = 42\<rparr>]\<rparr>)"

definition two_series_response :: "int series response" where
  "two_series_response =
     \<lparr>error = None,
      body = ArrayBody
        [\<lparr>series_tags = [(''hpc'', ''42''), (''dev'', ''a'')], dps = dps_example\<rparr>,
         \<lparr>series_tags = [(''hpc'', ''42''), (''dev'', ''b'')], dps = dps_seconds\<rparr>]\<rparr>"

text \<open>
  Two states the module reaches: connected at startup, and connected at startup and then
  disconnected by a network error. A metric line.
\<close>

definition up_state :: tsdb_state where
  "up_state = run initial [Call_connect example_config 0 None, Socket_connect 0 True]"

definition down_state :: tsdb_state where
  "down_state = run initial [Call_connect example_config 0 None, Socket_connect 0 True,
                             Socket_error 0 ''ECONNRESET'']"

definition put_line :: string where
  "put_line = ''hpc.power 1700000000 5 hpc=42''"

section \<open>Properties\<close>

subsection \<open>Decimal strings: lexicographic and numeric order\<close>

lemma char_less_iff_of_char: "c < d \<longleftrightarrow> (of_char c :: int) < of_char d"
  by (simp add: less_char_def flip: of_nat_of_char [where ?'a = int])

lemma char_le_iff_of_char: "c \<le> d \<longleftrightarrow> (of_char c :: int) \<le> of_char d"
  by (simp add: less_eq_char_def flip: of_nat_of_char [where ?'a = int])

lemma is_digit_value_range: "is_digit c \<Longrightarrow> 0 \<le> digit_value c \<and> digit_value c \<le> 9"
  by (simp add: is_digit_def digit_value_def char_le_iff_of_char)

lemma digit_value_less_iff: "digit_value c < digit_value d \<longleftrightarrow> c < d"
  by (simp add: digit_value_def char_less_iff_of_char)

lemma digit_value_eq_iff: "digit_value c = digit_value d \<longleftrightarrow> c = d"
  by (simp add: digit_value_def)

lemma foldl_decimal_shift:
  "foldl (\<lambda>acc c. acc * 10 + digit_value c) a s =
     a * 10 ^ length s + foldl (\<lambda>acc c. acc * 10 + digit_value c) 0 s"
proof (induction s arbitrary: a)
  case Nil
  show ?case by simp
next
  case (Cons c cs)
  have "foldl (\<lambda>acc c. acc * 10 + digit_value c) a (c # cs) =
        foldl (\<lambda>acc c. acc * 10 + digit_value c) (a * 10 + digit_value c) cs"
    by simp
  also have "\<dots> = (a * 10 + digit_value c) * 10 ^ length cs +
        foldl (\<lambda>acc c. acc * 10 + digit_value c) 0 cs"
    by (rule Cons.IH)
  also have "\<dots> = a * 10 ^ length (c # cs) +
        (digit_value c * 10 ^ length cs + foldl (\<lambda>acc c. acc * 10 + digit_value c) 0 cs)"
    by (simp add: algebra_simps)
  also have "digit_value c * 10 ^ length cs + foldl (\<lambda>acc c. acc * 10 + digit_value c) 0 cs =
        foldl (\<lambda>acc c. acc * 10 + digit_value c) 0 (c # cs)"
    using Cons.IH [of "digit_value c"] by simp
  finally show ?case .
qed

lemma decimal_value_Cons:
  "decimal_value (c # cs) = digit_value c * 10 ^ length cs + decimal_value cs"
  using foldl_decimal_shift [of "digit_value c" cs] by (simp add: decimal_value_def)

lemma decimal_value_Nil: "decimal_value [] = 0"
  by (simp add: decimal_value_def)

lemma decimal_value_bounds:
  "list_all is_digit s \<Longrightarrow> 0 \<le> decimal_value s \<and> decimal_value s < 10 ^ length s"
proof (induction s)
  case Nil
  show ?case by (simp add: decimal_value_Nil)
next
  case (Cons c cs)
  then have d: "0 \<le> digit_value c" "digit_value c \<le> 9"
    and v: "0 \<le> decimal_value cs" "decimal_value cs < 10 ^ length cs"
    using is_digit_value_range by auto
  have hi: "digit_value c * 10 ^ length cs \<le> 9 * 10 ^ length cs"
    using d(2) by (simp add: mult_right_mono)
  have lo: "0 \<le> digit_value c * 10 ^ length cs"
    using d(1) by simp
  have "decimal_value (c # cs) < 10 * 10 ^ length cs"
    unfolding decimal_value_Cons using hi v(2) by linarith
  moreover have "0 \<le> decimal_value (c # cs)"
    unfolding decimal_value_Cons using lo v(1) by linarith
  ultimately show ?case by simp
qed

lemma decimal_less_iff:
  "length a = length b \<Longrightarrow> list_all is_digit a \<Longrightarrow> list_all is_digit b \<Longrightarrow>
     a < b \<longleftrightarrow> decimal_value a < decimal_value b"
proof (induction a b rule: list_induct2)
  case Nil
  show ?case by (simp add: decimal_value_Nil)
next
  case (Cons c cs d ds)
  let ?P = "(10::int) ^ length cs"
  have len: "length ds = length cs" using Cons.hyps by simp
  have vc: "0 \<le> decimal_value cs" "decimal_value cs < ?P"
    using decimal_value_bounds [of cs] Cons.prems by auto
  have vd: "0 \<le> decimal_value ds" "decimal_value ds < ?P"
    using decimal_value_bounds [of ds] Cons.prems len by auto
  have IH: "cs < ds \<longleftrightarrow> decimal_value cs < decimal_value ds"
    using Cons.IH Cons.prems by simp
  consider (lt) "c < d" | (eq) "c = d" | (gt) "d < c"
    by (metis linorder_less_linear)
  then show ?case
  proof cases
    case lt
    then have "digit_value c + 1 \<le> digit_value d"
      using digit_value_less_iff [of c d] by simp
    then have "(digit_value c + 1) * ?P \<le> digit_value d * ?P"
      by (simp add: mult_right_mono)
    then have "decimal_value (c # cs) < decimal_value (d # ds)"
      using vc vd by (simp add: decimal_value_Cons len algebra_simps)
    with lt show ?thesis by simp
  next
    case eq
    then show ?thesis using IH by (simp add: decimal_value_Cons len)
  next
    case gt
    then have "digit_value d + 1 \<le> digit_value c"
      using digit_value_less_iff [of d c] by simp
    then have "(digit_value d + 1) * ?P \<le> digit_value c * ?P"
      by (simp add: mult_right_mono)
    then have "decimal_value (d # ds) < decimal_value (c # cs)"
      using vc vd by (simp add: decimal_value_Cons len algebra_simps)
    moreover have "\<not> c # cs < d # ds" using gt by auto
    ultimately show ?thesis by simp
  qed
qed


lemma is_digit_radix_digit: "is_digit c \<Longrightarrow> radix_digit 10 c = Some (digit_value c)"
  using is_digit_value_range [of c]
  by (simp add: radix_digit_def is_digit_def digit_value_def Let_def)

lemma is_digit_not_white_space: "is_digit c \<Longrightarrow> \<not> is_white_space c"
  by (auto simp: is_digit_def is_white_space_def less_eq_char_def)

lemma is_digit_not_sign: "is_digit c \<Longrightarrow> c \<noteq> CHR ''+'' \<and> c \<noteq> CHR ''-'' \<and> c \<noteq> CHR ''x'' \<and> c \<noteq> CHR ''X''"
  by (auto simp: is_digit_def less_eq_char_def)

lemma radix_value_decimal:
  "list_all is_digit s \<Longrightarrow>
     foldl (\<lambda>acc c. acc * 10 + (case radix_digit 10 c of Some d \<Rightarrow> d | None \<Rightarrow> 0)) a s =
     foldl (\<lambda>acc c. acc * 10 + digit_value c) a s"
  by (induction s arbitrary: a) (simp_all add: is_digit_radix_digit)

lemma takeWhile_decimal:
  "list_all is_digit s \<Longrightarrow> takeWhile (\<lambda>c. radix_digit 10 c \<noteq> None) s = s"
  by (induction s) (simp_all add: is_digit_radix_digit)

lemma not_hex_prefix:
  "list_all is_digit s \<Longrightarrow> take 2 s \<noteq> ''0x'' \<and> take 2 s \<noteq> ''0X''"
proof (cases s)
  case Nil
  then show ?thesis by simp
next
  case (Cons c cs)
  assume d: "list_all is_digit s"
  show ?thesis
  proof (cases cs)
    case Nil
    with Cons show ?thesis by simp
  next
    case (Cons e es)
    with \<open>s = c # cs\<close> d have "is_digit e" by simp
    then have "e \<noteq> CHR ''x'' \<and> e \<noteq> CHR ''X''" using is_digit_not_sign by blast
    with Cons \<open>s = c # cs\<close> show ?thesis by simp
  qed
qed

lemma parseInt_decimal:
  assumes "is_decimal s" and "length s \<le> 15"
  shows "parseInt s = JSNumber (decimal_value s)"
proof -
  from assms obtain c cs where s: "s = c # cs" and c: "is_digit c" and all: "list_all is_digit s"
    by (cases s) (auto simp: is_decimal_def)
  have ws: "dropWhile is_white_space s = s"
    using s c is_digit_not_white_space by simp
  have sign: "hd s \<noteq> CHR ''+''" "hd s \<noteq> CHR ''-''"
    using s c is_digit_not_sign by auto
  have hex: "take 2 s \<noteq> ''0x''" "take 2 s \<noteq> ''0X''"
    using not_hex_prefix [OF all] by auto
  have tw: "takeWhile (\<lambda>c. radix_digit 10 c \<noteq> None) s = s"
    by (rule takeWhile_decimal [OF all])
  have rv: "radix_value 10 s = decimal_value s"
    unfolding radix_value_def decimal_value_def by (rule radix_value_decimal [OF all])
  have ne: "s \<noteq> []" using s by simp
  have "decimal_value s < 10 ^ length s"
    using decimal_value_bounds [OF all] by simp
  also have "(10::int) ^ length s \<le> 10 ^ 15"
    using assms(2) by (intro power_increasing) simp_all
  also have "(10::int) ^ 15 < 2 ^ 53" by simp
  finally have "to_number (decimal_value s) = JSNumber (decimal_value s)"
    by (simp add: to_number_def)
  then show ?thesis
    unfolding parseInt_def Let_def ws
    using sign hex tw rv ne by (simp del: not_None_eq takeWhile_eq_all_conv)
qed

lemma set_object_keys: "set (object_keys obj) = fst ` set obj"
  by (auto simp: object_keys_def)

lemma distinct_object_keys: "well_formed obj \<Longrightarrow> distinct (object_keys obj)"
  by (auto simp: object_keys_def well_formed_def distinct_filter)

lemma array_sort_object_keys:
  assumes "well_formed obj"
  shows "array_sort (object_keys obj) = sort (map fst obj)"
proof (rule sorted_distinct_set_unique)
  show "sorted (array_sort (object_keys obj))" by (simp add: array_sort_def)
  show "distinct (array_sort (object_keys obj))"
    using distinct_object_keys [OF assms] by (simp add: array_sort_def)
  show "sorted (sort (map fst obj))" by simp
  show "distinct (sort (map fst obj))" using assms by (simp add: well_formed_def)
  show "set (array_sort (object_keys obj)) = set (sort (map fst obj))"
    by (simp add: array_sort_def set_object_keys)
qed

lemma prop_get_member:
  "well_formed obj \<Longrightarrow> (k, v) \<in> set obj \<Longrightarrow> prop_get obj k = Some v"
  by (simp add: well_formed_def prop_get_def)

lemma responseToLines_lexicographic:
  "well_formed obj \<Longrightarrow>
     responseToLines obj =
       map (\<lambda>key. \<lparr>timestamp = parseInt key, value = prop_get obj key\<rparr>) (sort (map fst obj))"
  by (simp add: responseToLines_def array_sort_object_keys)

lemma sort_map_decimal_value:
  assumes "\<forall>k \<in> set ks. list_all is_digit k \<and> length k = w"
  shows "map decimal_value (sort ks) = sort (map decimal_value ks)"
proof (rule sym, rule properties_for_sort)
  show "mset (map decimal_value (sort ks)) = mset (map decimal_value ks)"
    by simp
  have "sorted_wrt (\<le>) (sort ks)" by simp
  then have "sorted_wrt (\<lambda>a b. decimal_value a \<le> decimal_value b) (sort ks)"
  proof (rule sorted_wrt_mono_rel [rotated])
    fix a b
    assume "a \<in> set (sort ks)" "b \<in> set (sort ks)" "a \<le> b"
    then have a: "list_all is_digit a" "length a = w" and b: "list_all is_digit b" "length b = w"
      using assms by auto
    from \<open>a \<le> b\<close> have "a = b \<or> a < b" by auto
    then show "decimal_value a \<le> decimal_value b"
      using decimal_less_iff [of a b] a b by auto
  qed
  then show "sorted (map decimal_value (sort ks))"
    by (simp add: sorted_map)
qed


lemma map_fst_sort_key: "map fst (sort_key fst obj) = sort (map fst obj)"
  by (rule sym, rule properties_for_sort) simp_all

lemma responseToLines_entries:
  assumes "well_formed obj"
  shows "responseToLines obj =
           map (\<lambda>(k, v). \<lparr>timestamp = parseInt k, value = Some v\<rparr>) (sort_key fst obj)"
proof -
  have "responseToLines obj =
          map (\<lambda>key. \<lparr>timestamp = parseInt key, value = prop_get obj key\<rparr>)
            (map fst (sort_key fst obj))"
    using assms by (simp add: responseToLines_lexicographic map_fst_sort_key)
  also have "\<dots> = map (\<lambda>(k, v). \<lparr>timestamp = parseInt k, value = Some v\<rparr>) (sort_key fst obj)"
    using assms by (auto simp: prop_get_member)
  finally show ?thesis .
qed


subsection \<open>The order of the points\<close>

text \<open>
  The points come in the lexicographic order of the keys. When all keys are strings of
  decimal digits of one common width, of at most 15 digits, this is the ascending order
  of the timestamps.
\<close>

lemma responseToLines_equal_width:
  assumes "well_formed obj"
    and "list_all (\<lambda>(k, v). is_decimal k \<and> length k = w) obj"
    and "w \<le> 15"
  shows "map timestamp (responseToLines obj) =
           map JSNumber (sort (map (\<lambda>(k, v). decimal_value k) obj))"
proof -
  from assms(2) have width: "\<forall>k \<in> fst ` set obj. is_decimal k \<and> length k = w"
    by (auto simp: list_all_iff)
  then have digits: "\<forall>k \<in> set (map fst obj). list_all is_digit k \<and> length k = w"
    by (simp add: is_decimal_def)
  have "map timestamp (responseToLines obj) = map parseInt (sort (map fst obj))"
    using assms(1) by (simp add: responseToLines_lexicographic comp_def)
  also have "\<dots> = map (\<lambda>k. JSNumber (decimal_value k)) (sort (map fst obj))"
    using width assms(3) by (auto simp: parseInt_decimal)
  also have "\<dots> = map JSNumber (map decimal_value (sort (map fst obj)))"
    by simp
  also have "map decimal_value (sort (map fst obj)) = sort (map decimal_value (map fst obj))"
    by (rule sort_map_decimal_value [OF digits])
  also have "map decimal_value (map fst obj) = map (\<lambda>(k, v). decimal_value k) obj"
    by (simp add: case_prod_unfold)
  finally show ?thesis .
qed

text \<open>Two points with ten-digit keys, the later one stored first: the earlier comes out first.\<close>

lemma responseToLines_seconds:
  "responseToLines dps_seconds =
     [\<lparr>timestamp = JSNumber 1700000020, value = Some 3\<rparr>,
      \<lparr>timestamp = JSNumber 1700000100, value = Some 5\<rparr>]"
  unfolding dps_seconds_def by code_simp

text \<open>
  A key above \<open>2^53\<close> does not come back as its own number: \<^verbatim>\<open>parseInt\<close> gives the
  nearest double.
\<close>

lemma parseInt_rounds: "parseInt ''9007199254740993'' = JSNumber 9007199254740992"
  by code_simp

text \<open>
  Claim C1. For \<^verbatim>\<open>{"100":5,"20":3}\<close> the point of key \<^verbatim>\<open>"100"\<close> comes first: the keys
  are sorted as strings, \<^verbatim>\<open>"100"\<close> before \<^verbatim>\<open>"20"\<close>, and the points do not come in
  ascending order of their timestamps.
\<close>

theorem responseToLines_string_order:
  "responseToLines dps_example =
     [\<lparr>timestamp = JSNumber 100, value = Some 5\<rparr>, \<lparr>timestamp = JSNumber 20, value = Some 3\<rparr>] \<and>
   responseToLines dps_example \<noteq>
     [\<lparr>timestamp = JSNumber 20, value = Some 3\<rparr>, \<lparr>timestamp = JSNumber 100, value = Some 5\<rparr>]"
  unfolding dps_example_def by code_simp

subsection \<open>Replies that are not errors\<close>




lemma snd_queryRange:
  "tags f = Some tgs \<Longrightarrow>
     snd (queryRange cfg request_get metric f) =
       snd (queryRange_end (queryRange_uri cfg metric f tgs)
              (request_get (queryRange_uri cfg metric f tgs)))"
  by (simp add: queryRange_def Let_def split: prod.splits)






subsection \<open>The latest point\<close>

text \<open>
  For a 400 reply without the message \<^verbatim>\<open>No such name for \<close> the two request callbacks
  differ, whatever the rest of the reply.
\<close>

lemma bad_request_policies_differ:
  assumes "error res = Some he" and "status he = 400" and "\<not> no_such_name (body res)"
  shows "snd (getLatestTimeSeries_end uri (err, Some res)) =
           Callback (Some (TsdbError (error_payload err (Some res)))) None"
    and "snd (queryRange_end uri (err, Some res)) = Callback None (ArrayBody [])"
  using assms by (simp_all add: status_is_def)

text \<open>The timestamp of the point of a good reply is a string, whatever the store sent.\<close>

lemma latest_timestamp_always_string:
  assumes "error res = None" and "body res = ArrayBody (p # ps)"
  shows "snd (getLatestTimeSeries_end uri (None, Some res)) =
           Callback None (Some \<lparr>timestamp = JSString (toFixed0_div1000 (ms_timestamp p)),
                                value = last_value p\<rparr>)"
  using assms by simp

text \<open>
  Claim C2. The comment on \<^verbatim>\<open>getLatestTimeSeries\<close> promises no error for a 400 reply, and
  \<^verbatim>\<open>queryRange\<close> gives none. \<^verbatim>\<open>getLatestTimeSeries\<close> asks for the message
  \<^verbatim>\<open>No such name for \<close> with status 400 as well: for a 400 reply with another message it
  reports an error, where \<^verbatim>\<open>getTimeSeriesRange\<close> reports the empty list.
\<close>

theorem getLatestTimeSeries_bad_request_is_error:
  "snd (getLatestTimeSeries example_config (\<lambda>uri. bad_request_reply :: int last_point reply)
          ''hpc.power'' [(''hpc'', ''42'')]) =
     Callback (Some (TsdbError ''Error: Bad Request'')) None \<and>
   snd (getTimeSeriesRange example_config (\<lambda>uri. bad_request_reply :: int series reply)
          ''hpc.power'' example_filter) =
     Callback None []"
  by code_simp

text \<open>
  Claim C3. For the store timestamp 1700000000000 the point handed to the caller has the
  timestamp \<^verbatim>\<open>"1700000000"\<close>, a string (what \<^verbatim>\<open>toFixed\<close> returns), not the number
  1700000000.
\<close>

theorem getLatestTimeSeries_timestamp_is_string:
  "snd (getLatestTimeSeries example_config (\<lambda>uri. latest_reply) ''hpc.power'' [(''hpc'', ''42'')]) =
     Callback None (Some \<lparr>timestamp = JSString ''1700000000'', value = 42\<rparr>)"
  by code_simp

subsection \<open>Grouped ranges\<close>

lemma prop_get_prop_set:
  "prop_get (prop_set obj k v) k' = (if k' = k then Some v else prop_get obj k')"
  by (induction obj) (auto simp: prop_get_def)

lemma keys_prop_set: "fst ` set (prop_set obj k v) = insert k (fst ` set obj)"
proof (induction obj)
  case Nil
  show ?case by simp
next
  case (Cons p obj)
  obtain k' v' where p: "p = (k', v')" by (cases p)
  show ?case
  proof (cases "k' = k")
    case True
    with p show ?thesis by simp
  next
    case False
    with p Cons.IH show ?thesis by (simp add: insert_commute)
  qed
qed

lemma well_formed_prop_set: "well_formed obj \<Longrightarrow> well_formed (prop_set obj k v)"
proof (induction obj)
  case Nil
  show ?case by (simp add: well_formed_def)
next
  case (Cons p obj)
  obtain k' v' where p: "p = (k', v')" by (cases p)
  from Cons.prems p have wf: "well_formed obj" and fresh: "k' \<notin> fst ` set obj"
    by (auto simp: well_formed_def)
  show ?case
  proof (cases "k' = k")
    case True
    with Cons.prems p show ?thesis by (simp add: well_formed_def)
  next
    case False
    have "distinct (map fst (prop_set obj k v))"
      using Cons.IH [OF wf] by (simp add: well_formed_def)
    moreover have "k' \<notin> fst ` set (prop_set obj k v)"
      using fresh False by (simp add: keys_prop_set)
    ultimately show ?thesis using False p by (simp add: well_formed_def)
  qed
qed

text \<open>An assignment under a key other than \<^verbatim>\<open>__proto__\<close> defines the own property.\<close>

lemma prop_assign_plain: "k \<noteq> ''__proto__'' \<Longrightarrow> prop_assign obj k v = prop_set obj k v"
  by (simp add: prop_assign_def)

lemma prop_assign_proto:
  "''__proto__'' \<notin> fst ` set obj \<Longrightarrow> prop_assign obj ''__proto__'' v = obj"
  by (simp add: prop_assign_def map_of_eq_None_iff)

lemma group_series_snoc:
  "group_series grp (ss @ [s]) =
     prop_assign (group_series grp ss) (group_key grp s) (responseToLines (dps s))"
  by (simp add: group_series_def)

lemma group_series_Nil: "group_series grp [] = []"
  by (simp add: group_series_def)

lemma keys_group_series:
  "fst ` set (group_series grp ss) = group_key grp ` set ss - {''__proto__''}"
proof (induction ss rule: rev_induct)
  case Nil
  show ?case by (simp add: group_series_Nil)
next
  case (snoc s ss)
  then have none: "''__proto__'' \<notin> fst ` set (group_series grp ss)" by blast
  show ?case
  proof (cases "group_key grp s = ''__proto__''")
    case True
    with snoc none show ?thesis
      by (auto simp: group_series_snoc prop_assign_proto)
  next
    case False
    with snoc show ?thesis
      by (auto simp: group_series_snoc prop_assign_plain keys_prop_set)
  qed
qed

lemma well_formed_group_series: "well_formed (group_series grp ss)"
proof (induction ss rule: rev_induct)
  case Nil
  show ?case by (simp add: group_series_Nil well_formed_def)
next
  case (snoc s ss)
  then show ?case
    by (simp add: group_series_snoc prop_assign_def well_formed_prop_set)
qed

lemma group_series_last:
  assumes "group_key grp s \<noteq> ''__proto__''"
    and "\<forall>t \<in> set post. group_key grp t \<noteq> group_key grp s"
  shows "prop_get (group_series grp (pre @ s # post)) (group_key grp s) =
           Some (responseToLines (dps s))"
  using assms(2)
proof (induction post rule: rev_induct)
  case Nil
  show ?case
    using group_series_snoc [of grp pre s] assms(1)
    by (simp add: prop_assign_plain prop_get_prop_set)
next
  case (snoc t post)
  have differ: "group_key grp s \<noteq> group_key grp t"
    using snoc.prems by auto
  have before: "prop_get (group_series grp (pre @ s # post)) (group_key grp s) =
          Some (responseToLines (dps s))"
    using snoc by simp
  have "group_series grp (pre @ s # post @ [t]) =
          prop_assign (group_series grp (pre @ s # post)) (group_key grp t)
            (responseToLines (dps t))"
    using group_series_snoc [of grp "pre @ s # post" t] by simp
  then show ?case
    using differ before by (simp add: prop_assign_def prop_get_prop_set)
qed

lemma ensure_group_tag_wildcard:
  assumes "grp \<notin> set object_prototype_members"
    and "tags f = None \<or>
         (\<exists>tgs. tags f = Some tgs \<and> (prop_get tgs grp = None \<or> prop_get tgs grp = Some []))"
  shows "\<exists>tgs'. tags (ensure_group_tag f grp) = Some tgs' \<and> prop_get tgs' grp = Some ''*''"
proof -
  define tgs where "tgs = (case tags f of None \<Rightarrow> [] | Some t \<Rightarrow> t)"
  have plain: "grp \<noteq> ''__proto__''"
    using assms(1) by (auto simp: object_prototype_members_def)
  have lacks: "prop_read tgs grp = Absent \<or> prop_read tgs grp = Own []"
    using assms by (auto simp: tgs_def prop_get_def prop_read_def)
  have "tags (ensure_group_tag f grp) = Some (prop_set tgs grp ''*'')"
    using lacks plain by (auto simp: ensure_group_tag_def tgs_def prop_assign_plain)
  then show ?thesis by (simp add: prop_get_prop_set)
qed

lemma http_requests_append: "http_requests (xs @ ys) = http_requests xs @ http_requests ys"
  by (simp add: http_requests_def)

lemma queryRange_end_no_request: "http_requests (fst (queryRange_end uri reply)) = []"
  by (cases "(uri, reply)" rule: queryRange_end.cases) (auto simp: http_requests_def)

lemma http_requests_queryRange:
  "tags f = Some tgs \<Longrightarrow>
     http_requests (fst (queryRange cfg request_get metric f)) = [queryRange_uri cfg metric f tgs]"
  using queryRange_end_no_request [of "queryRange_uri cfg metric f tgs" "request_get (queryRange_uri cfg metric f tgs)"]
  by (simp add: queryRange_def Let_def logTsdbRequest_def http_requests_def split: prod.splits)

lemma fst_getTimeSeriesRangeList:
  "fst (getTimeSeriesRangeList cfg request_get metric f grp) =
     fst (queryRange cfg request_get metric (ensure_group_tag f grp))"
  by (simp add: getTimeSeriesRangeList_def split: prod.splits)

lemma snd_getTimeSeriesRangeList:
  "snd (getTimeSeriesRangeList cfg request_get metric f grp) =
     getTimeSeriesRangeList_callback grp
       (snd (queryRange cfg request_get metric (ensure_group_tag f grp)))"
  by (simp add: getTimeSeriesRangeList_def split: prod.splits)

text \<open>
  Where the group tag does not have the name of a member of \<^verbatim>\<open>Object.prototype\<close>: let the
  filter have no tags, or no value (or the empty string) for the group tag. Then the
  filter used has \<^verbatim>\<open>'*'\<close> for the group tag, exactly one request is made, for the URI of
  that filter, and when the answer is an array of series the caller gets an object whose
  keys are the group tag values of the series (but \<^verbatim>\<open>__proto__\<close>), each series found
  under its value unless a later series has the same value.
\<close>

lemma getTimeSeriesRangeList_wildcard:
  assumes "grp \<notin> set object_prototype_members"
    and "tags f = None \<or>
         (\<exists>tgs. tags f = Some tgs \<and> (prop_get tgs grp = None \<or> prop_get tgs grp = Some []))"
  shows "\<exists>tgs'. tags (ensure_group_tag f grp) = Some tgs' \<and> prop_get tgs' grp = Some ''*'' \<and>
           http_requests (fst (getTimeSeriesRangeList cfg request_get metric f grp)) =
             [queryRange_uri cfg metric (ensure_group_tag f grp) tgs'] \<and>
           (\<forall>res ss.
              request_get (queryRange_uri cfg metric (ensure_group_tag f grp) tgs') = (None, Some res) \<and>
              error res = None \<and> body res = ArrayBody ss \<longrightarrow>
              (\<exists>m. snd (getTimeSeriesRangeList cfg request_get metric f grp) = Callback None m \<and>
                   well_formed m \<and>
                   fst ` set m = group_key grp ` set ss - {''__proto__''} \<and>
                   (\<forall>pre s post.
                      ss = pre @ s # post \<and> group_key grp s \<noteq> ''__proto__'' \<and>
                      (\<forall>t \<in> set post. group_key grp t \<noteq> group_key grp s) \<longrightarrow>
                      prop_get m (group_key grp s) = Some (responseToLines (dps s)))))"
proof -
  from ensure_group_tag_wildcard [OF assms] obtain tgs'
    where t: "tags (ensure_group_tag f grp) = Some tgs'" and w: "prop_get tgs' grp = Some ''*''"
    by blast
  let ?uri = "queryRange_uri cfg metric (ensure_group_tag f grp) tgs'"
  have one: "http_requests (fst (getTimeSeriesRangeList cfg request_get metric f grp)) = [?uri]"
    by (simp add: fst_getTimeSeriesRangeList http_requests_queryRange [OF t])
  have grouped: "\<exists>m. snd (getTimeSeriesRangeList cfg request_get metric f grp) = Callback None m \<and>
                   well_formed m \<and>
                   fst ` set m = group_key grp ` set ss - {''__proto__''} \<and>
                   (\<forall>pre s post.
                      ss = pre @ s # post \<and> group_key grp s \<noteq> ''__proto__'' \<and>
                      (\<forall>t \<in> set post. group_key grp t \<noteq> group_key grp s) \<longrightarrow>
                      prop_get m (group_key grp s) = Some (responseToLines (dps s)))"
    if ok: "request_get ?uri = (None, Some res)" "error res = None" "body res = ArrayBody ss"
    for res ss
  proof -
    have m: "snd (getTimeSeriesRangeList cfg request_get metric f grp) =
            Callback None (group_series grp ss)"
      using ok by (simp add: snd_getTimeSeriesRangeList snd_queryRange [OF t])
    have last: "\<forall>pre s post.
        ss = pre @ s # post \<and> group_key grp s \<noteq> ''__proto__'' \<and>
        (\<forall>t \<in> set post. group_key grp t \<noteq> group_key grp s) \<longrightarrow>
        prop_get (group_series grp ss) (group_key grp s) = Some (responseToLines (dps s))"
      by (auto intro: group_series_last)
    show ?thesis
      by (intro exI [of _ "group_series grp ss"] conjI)
        (rule m, rule well_formed_group_series, rule keys_group_series, rule last)
  qed
  show ?thesis
  proof (intro exI [of _ tgs'] conjI allI impI)
    show "tags (ensure_group_tag f grp) = Some tgs'" by (rule t)
    show "prop_get tgs' grp = Some ''*''" by (rule w)
    show "http_requests (fst (getTimeSeriesRangeList cfg request_get metric f grp)) = [?uri]"
      by (rule one)
  next
    fix res ss
    assume "request_get ?uri = (None, Some res) \<and> error res = None \<and> body res = ArrayBody ss"
    then have "request_get ?uri = (None, Some res)" "error res = None" "body res = ArrayBody ss"
      by simp_all
    then show "\<exists>m. snd (getTimeSeriesRangeList cfg request_get metric f grp) = Callback None m \<and>
                   well_formed m \<and>
                   fst ` set m = group_key grp ` set ss - {''__proto__''} \<and>
                   (\<forall>pre s post.
                      ss = pre @ s # post \<and> group_key grp s \<noteq> ''__proto__'' \<and>
                      (\<forall>t \<in> set post. group_key grp t \<noteq> group_key grp s) \<longrightarrow>
                      prop_get m (group_key grp s) = Some (responseToLines (dps s)))"
      by (rule grouped)
  qed
qed

text \<open>A filter with one other tag, grouped by \<^verbatim>\<open>dev\<close>, and an answer of two series.\<close>

lemma getTimeSeriesRangeList_dev:
  "http_requests (fst (getTimeSeriesRangeList example_config (\<lambda>uri. (None, Some two_series_response))
                         ''hpc.power'' example_filter ''dev'')) =
     [''http://tsdb.local:4242/api/query?start=1700000000&end=1700003600&m=avg:rate:hpc.power{hpc=42,dev=*}''] \<and>
   snd (getTimeSeriesRangeList example_config (\<lambda>uri. (None, Some two_series_response))
          ''hpc.power'' example_filter ''dev'') =
     Callback None
       [(''a'', [\<lparr>timestamp = JSNumber 100, value = Some 5\<rparr>,
                 \<lparr>timestamp = JSNumber 20, value = Some 3\<rparr>]),
        (''b'', [\<lparr>timestamp = JSNumber 1700000020, value = Some 3\<rparr>,
                 \<lparr>timestamp = JSNumber 1700000100, value = Some 5\<rparr>])]"
  by code_simp

text \<open>
  Claim C6. The source means to ensure that the group tag is present in the filter, and
  tests \<^verbatim>\<open>!filter.tags[group]\<close>. For the group tag \<^verbatim>\<open>constructor\<close> and a filter without such
  a tag the read finds the inherited \<^verbatim>\<open>Object.prototype.constructor\<close>: the filter is left
  as it is, and the one request made has no wildcard for the group tag.
\<close>

theorem getTimeSeriesRangeList_inherited_group:
  "prop_get [(''hpc'', ''42'')] ''constructor'' = None \<and>
   tags example_filter = Some [(''hpc'', ''42'')] \<and>
   tags (ensure_group_tag example_filter ''constructor'') = Some [(''hpc'', ''42'')] \<and>
   http_requests (fst (getTimeSeriesRangeList example_config (\<lambda>uri. (None, Some two_series_response))
                         ''hpc.power'' example_filter ''constructor'')) =
     [''http://tsdb.local:4242/api/query?start=1700000000&end=1700003600&m=avg:rate:hpc.power{hpc=42}'']"
  by code_simp

subsection \<open>The event loop\<close>

lemma run_Nil: "run s [] = s"
  by (simp add: run_def)

lemma run_Cons: "run s (ev # evs) = run (step s ev) evs"
  by (simp add: run_def)

lemma run_exited: "exited s \<Longrightarrow> run s evs = s"
  by (induction evs) (simp_all add: run_Nil run_Cons step_def)

lemma step_live: "\<not> exited s \<Longrightarrow> step s ev = handle ev s"
  by (simp add: step_def)

lemma connectionError_result:
  "exited (connectionError err s) \<and>
   trace (connectionError err s) =
     trace s @ [StatIncrement ''opentsdb.failure'',
                LogFatal (''OpenTSDB connection error: '' @ err), ProcessExit 1]"
  by (simp add: connectionError_def emit_def)

lemma connect_created:
  "connect (Some cfg) callback None s =
     s\<lparr>localConfig := Some cfg,
       next_socket := Suc (next_socket s),
       connecting := connecting s @ [(next_socket s, callback)],
       trace := trace s @ [NetCreateConnection (opentsdb_port cfg) (opentsdb_host cfg) (next_socket s)]\<rparr>"
  by (simp add: connect_def Let_def emit_def)

lemma step_addTimeSeries_reconnect:
  assumes "\<not> exited s" "needs_reconnect s" "localConfig s = Some cfg"
  shows "step s (Call_addTimeSeries metric cb None accepted) =
     s\<lparr>localConfig := Some cfg,
       next_socket := Suc (next_socket s),
       connecting := connecting s @ [(next_socket s, SendTimeSeries metric cb)],
       trace := trace s @ [NetCreateConnection (opentsdb_port cfg) (opentsdb_host cfg) (next_socket s)]\<rparr>"
  using assms by (simp add: step_def addTimeSeries_def connect_created)

lemma map_of_fresh_append:
  "k \<notin> fst ` set xs \<Longrightarrow> map_of (xs @ [(k, v)]) k = Some v"
  by (induction xs) auto

lemma sendTimeSeries_write:
  "opentsdb s = Some sock \<Longrightarrow>
     sendTimeSeries metric cb accepted None s =
       s\<lparr>writing := writing s @ [cb],
         trace := trace s @ [SocketWrite sock (''put '' @ metric @ [CHR 0x0A])] @
           (if accepted then [StatTiming ''opentsdb.write.time'']
            else [StatIncrement ''opentsdb.write.delayed'',
                  LogInfo ''OpenTSDB data queued for writing''])\<rparr>"
  by (simp add: sendTimeSeries_def Let_def emit_def)

lemma connection_attempts_append:
  "connection_attempts (xs @ ys) = connection_attempts xs + connection_attempts ys"
  by (simp add: connection_attempts_def)

text \<open>Every state the module reaches from its initial state knows its sockets.\<close>

lemma sockets_known_fresh: "sockets_known s \<Longrightarrow> next_socket s \<notin> fst ` set (connecting s)"
  by (auto simp: sockets_known_def list_all_iff)

lemma sockets_known_connect:
  "sockets_known s \<Longrightarrow> sockets_known (connect nconf callback throws s)"
  by (auto simp: sockets_known_def connect_def connectionError_def emit_def Let_def list_all_iff
      split: option.splits)

lemma sockets_known_sendTimeSeries:
  "sockets_known s \<Longrightarrow> sockets_known (sendTimeSeries metric cb accepted err s)"
  by (auto simp: sockets_known_def sendTimeSeries_def uncaught_def emit_def Let_def
      split: option.splits)

lemma sockets_known_connectionEstablished:
  assumes "sockets_known s"
  shows "sockets_known (connectionEstablished sock callback accepted s)"
proof -
  let ?s2 = "(emit [LogInfo ''Connected to OpenTSDB.''] s)
      \<lparr>opentsdb := Some sock,
       listening := listening (emit [LogInfo ''Connected to OpenTSDB.''] s) @ [sock],
       connecting := filter (\<lambda>(k, c). k \<noteq> sock)
                       (connecting (emit [LogInfo ''Connected to OpenTSDB.''] s))\<rparr>"
  have k: "sockets_known ?s2"
    using assms by (auto simp: sockets_known_def emit_def list_all_iff)
  show ?thesis
  proof (cases callback)
    case (AppCallback cb)
    with k show ?thesis
      by (simp add: connectionEstablished_def Let_def sockets_known_def emit_def)
  next
    case (SendTimeSeries metric cb)
    with sockets_known_sendTimeSeries [OF k] show ?thesis
      by (simp add: connectionEstablished_def Let_def)
  qed
qed

lemma sockets_known_handle: "sockets_known s \<Longrightarrow> sockets_known (handle ev s)"
proof (cases ev)
  case (Call_connect nconf cb throws)
  assume "sockets_known s"
  with Call_connect show ?thesis by (simp add: sockets_known_connect)
next
  case (Call_addTimeSeries metric cb throws accepted)
  assume "sockets_known s"
  with Call_addTimeSeries show ?thesis
    by (simp add: addTimeSeries_def sockets_known_connect sockets_known_sendTimeSeries)
next
  case (Socket_connect sock accepted)
  assume k: "sockets_known s"
  then have "sockets_known (s\<lparr>writable := writable s @ [sock]\<rparr>)"
    by (simp add: sockets_known_def)
  with Socket_connect k show ?thesis
    by (simp add: sockets_known_connectionEstablished split: option.splits)
next
  case (Socket_error sock err)
  assume "sockets_known s"
  with Socket_error show ?thesis
    by (auto simp: sockets_known_def connectionError_def networkError_def uncaught_def emit_def
        Let_def split: option.splits)
next
  case (Socket_end sock)
  assume "sockets_known s"
  with Socket_end show ?thesis by (simp add: sockets_known_def)
next
  case (Write_done cb err)
  assume "sockets_known s"
  with Write_done show ?thesis by (simp add: sockets_known_def emit_def)
qed

lemma sockets_known_run: "sockets_known s \<Longrightarrow> sockets_known (run s evs)"
  by (induction evs arbitrary: s) (simp_all add: run_Nil run_Cons step_def sockets_known_handle)

lemma sockets_known_reachable: "sockets_known (run initial evs)"
  by (rule sockets_known_run) (simp add: sockets_known_def initial_def)

lemma down_state_facts:
  "\<not> exited down_state" "needs_reconnect down_state"
  "localConfig down_state = Some example_config" "next_socket down_state = 1"
  "trace down_state =
     [NetCreateConnection ''4242'' ''tsdb.local'' 0, LogInfo ''Connected to OpenTSDB.'',
      ConnectCallback 0 0, LogError ''OpenTSDB  network error: ECONNRESET'', SocketDestroy 0]"
  unfolding down_state_def by code_simp+

lemma up_state_facts:
  "\<not> exited up_state" "opentsdb up_state = Some 0" "0 \<in> set (writable up_state)"
  "trace up_state =
     [NetCreateConnection ''4242'' ''tsdb.local'' 0, LogInfo ''Connected to OpenTSDB.'',
      ConnectCallback 0 0]"
  unfolding up_state_def by code_simp+

subsection \<open>A connection that fails\<close>

text \<open>
  Claim C8. When the connection fails, the process ends: \<^verbatim>\<open>connectionError\<close> counts the
  failure, logs it as fatal and calls \<^verbatim>\<open>process.exit(1)\<close>. This holds when
  \<^verbatim>\<open>net.createConnection\<close> raises, and when the new socket raises an error before it
  connects, at startup as well as in the reconnection of a write. The trace gains
  nothing else: no callback is called and no further connection is made, and after the
  end of the process no event changes the state.
\<close>

theorem connect_failure_is_fatal:
  assumes "\<not> exited s"
  shows "(let s' = connect (Some cfg) callback (Some err) s
          in exited s' \<and>
             trace s' = trace s @ [StatIncrement ''opentsdb.failure'',
                                  LogFatal (''OpenTSDB connection error: '' @ err), ProcessExit 1]) \<and>
         (let s' = run s [Call_connect cfg cb None, Socket_error (next_socket s) err]
          in exited s' \<and>
             trace s' = trace s @ [NetCreateConnection (opentsdb_port cfg) (opentsdb_host cfg) (next_socket s),
                                  StatIncrement ''opentsdb.failure'',
                                  LogFatal (''OpenTSDB connection error: '' @ err), ProcessExit 1]) \<and>
         (needs_reconnect s \<and> localConfig s = Some cfg \<longrightarrow>
            (let s' = run s [Call_addTimeSeries metric cb None accepted, Socket_error (next_socket s) err]
             in exited s' \<and>
                trace s' = trace s @ [NetCreateConnection (opentsdb_port cfg) (opentsdb_host cfg) (next_socket s),
                                     StatIncrement ''opentsdb.failure'',
                                     LogFatal (''OpenTSDB connection error: '' @ err), ProcessExit 1])) \<and>
         (\<forall>sock. sock \<in> fst ` set (connecting s) \<longrightarrow>
            (let s' = step s (Socket_error sock err)
             in exited s' \<and>
                trace s' = trace s @ [StatIncrement ''opentsdb.failure'',
                                     LogFatal (''OpenTSDB connection error: '' @ err), ProcessExit 1])) \<and>
         (\<forall>s' evs. exited s' \<longrightarrow> run s' evs = s')"
proof (intro conjI allI impI)
  show "let s' = connect (Some cfg) callback (Some err) s
        in exited s' \<and>
           trace s' = trace s @ [StatIncrement ''opentsdb.failure'',
                                LogFatal (''OpenTSDB connection error: '' @ err), ProcessExit 1]"
    by (simp add: connect_def Let_def connectionError_result)
next
  have "step s (Call_connect cfg cb None) = connect (Some cfg) (AppCallback cb) None s"
    using assms by (simp add: step_def)
  then show "let s' = run s [Call_connect cfg cb None, Socket_error (next_socket s) err]
        in exited s' \<and>
           trace s' = trace s @ [NetCreateConnection (opentsdb_port cfg) (opentsdb_host cfg) (next_socket s),
                                StatIncrement ''opentsdb.failure'',
                                LogFatal (''OpenTSDB connection error: '' @ err), ProcessExit 1]"
    using assms
    by (simp add: run_Cons run_Nil connect_created step_def Let_def connectionError_result)
next
  assume "needs_reconnect s \<and> localConfig s = Some cfg"
  then have "step s (Call_addTimeSeries metric cb None accepted) =
               connect (Some cfg) (SendTimeSeries metric cb) None s"
    using assms by (simp add: step_def addTimeSeries_def)
  then show "let s' = run s [Call_addTimeSeries metric cb None accepted, Socket_error (next_socket s) err]
        in exited s' \<and>
           trace s' = trace s @ [NetCreateConnection (opentsdb_port cfg) (opentsdb_host cfg) (next_socket s),
                                StatIncrement ''opentsdb.failure'',
                                LogFatal (''OpenTSDB connection error: '' @ err), ProcessExit 1]"
    using assms
    by (simp add: run_Cons run_Nil connect_created step_def Let_def connectionError_result)
next
  fix sock
  assume "sock \<in> fst ` set (connecting s)"
  then show "let s' = step s (Socket_error sock err)
        in exited s' \<and>
           trace s' = trace s @ [StatIncrement ''opentsdb.failure'',
                                LogFatal (''OpenTSDB connection error: '' @ err), ProcessExit 1]"
    using assms by (simp add: step_def Let_def connectionError_result)
next
  fix s' :: tsdb_state and evs
  assume "exited s'"
  then show "run s' evs = s'" by (rule run_exited)
qed

text \<open>The theorem at startup, with a refused connection.\<close>

theorem connect_failure_is_fatal_witness:
  "\<not> exited initial \<and>
   exited (run initial [Call_connect example_config 0 None, Socket_error 0 ''ECONNREFUSED'']) \<and>
   trace (run initial [Call_connect example_config 0 None, Socket_error 0 ''ECONNREFUSED'']) =
     [NetCreateConnection ''4242'' ''tsdb.local'' 0, StatIncrement ''opentsdb.failure'',
      LogFatal ''OpenTSDB connection error: ECONNREFUSED'', ProcessExit 1]"
proof -
  have live: "\<not> exited initial" by (simp add: initial_def)
  have k: "next_socket initial = 0" "trace initial = []" by (simp_all add: initial_def)
  from connect_failure_is_fatal [OF live, of example_config "AppCallback 0" "''ECONNREFUSED''" 0]
  show ?thesis
    using live k by (simp add: Let_def example_config_def)
qed

subsection \<open>Writes that reconnect\<close>

text \<open>
  Claim C4, as the code has it. Let a write find the connection absent or unwritable.
  When the new socket connects, the line is written to it and the caller's callback is
  the callback of that write: what the socket reports for the write, an error or none,
  is what the caller's callback gets. When the new socket raises an error instead of
  connecting, the process ends and no callback is called, then or later.
\<close>

theorem addTimeSeries_reconnect_errors:
  assumes "\<not> exited s" and "needs_reconnect s" and "localConfig s = Some cfg"
    and "sockets_known s"
  shows "(let s2 = run s [Call_addTimeSeries metric cb None a,
                          Socket_connect (next_socket s) accepted]
          in \<not> exited s2 \<and> opentsdb s2 = Some (next_socket s) \<and> cb \<in> set (writing s2) \<and>
             trace s2 = trace s @
               [NetCreateConnection (opentsdb_port cfg) (opentsdb_host cfg) (next_socket s),
                LogInfo ''Connected to OpenTSDB.'',
                SocketWrite (next_socket s) (''put '' @ metric @ [CHR 0x0A])] @
               (if accepted then [StatTiming ''opentsdb.write.time'']
                else [StatIncrement ''opentsdb.write.delayed'',
                      LogInfo ''OpenTSDB data queued for writing'']) \<and>
             trace (step s2 (Write_done cb r)) = trace s2 @ [CallerCallback cb r]) \<and>
         (let s2 = run s [Call_addTimeSeries metric cb None a,
                          Socket_error (next_socket s) err]
          in exited s2 \<and> callbacks_of (trace s2) = callbacks_of (trace s) \<and>
             (\<forall>evs. callbacks_of (trace (run s2 evs)) = callbacks_of (trace s)))"
proof (intro conjI)
  let ?k = "next_socket s"
  let ?s1 = "step s (Call_addTimeSeries metric cb None a)"
  have s1: "?s1 = s\<lparr>localConfig := Some cfg,
       next_socket := Suc ?k,
       connecting := connecting s @ [(?k, SendTimeSeries metric cb)],
       trace := trace s @ [NetCreateConnection (opentsdb_port cfg) (opentsdb_host cfg) ?k]\<rparr>"
    by (rule step_addTimeSeries_reconnect [OF assms(1,2,3)])
  have look: "map_of (connecting ?s1) ?k = Some (SendTimeSeries metric cb)"
    using sockets_known_fresh [OF assms(4)] by (simp add: s1 map_of_fresh_append del: map_of_append)
  have live: "\<not> exited ?s1" using assms(1) by (simp add: s1)
  let ?s2 = "step ?s1 (Socket_connect ?k accepted)"
  have s2: "?s2 = connectionEstablished ?k (SendTimeSeries metric cb) accepted
                    (?s1\<lparr>writable := writable ?s1 @ [?k]\<rparr>)"
    using live look by (simp add: step_def)
  have s2': "?s2 = sendTimeSeries metric cb accepted None
       (?s1\<lparr>writable := writable ?s1 @ [?k],
             trace := trace ?s1 @ [LogInfo ''Connected to OpenTSDB.''],
             opentsdb := Some ?k,
             listening := listening ?s1 @ [?k],
             connecting := filter (\<lambda>(k, c). k \<noteq> ?k) (connecting ?s1)\<rparr>)"
    unfolding s2 by (simp add: connectionEstablished_def Let_def emit_def)
  have run2: "run s [Call_addTimeSeries metric cb None a, Socket_connect ?k accepted] = ?s2"
    by (simp add: run_Cons run_Nil)
  have t2: "trace ?s2 = trace s @
               [NetCreateConnection (opentsdb_port cfg) (opentsdb_host cfg) ?k,
                LogInfo ''Connected to OpenTSDB.'',
                SocketWrite ?k (''put '' @ metric @ [CHR 0x0A])] @
               (if accepted then [StatTiming ''opentsdb.write.time'']
                else [StatIncrement ''opentsdb.write.delayed'',
                      LogInfo ''OpenTSDB data queued for writing''])"
    unfolding s2' by (simp add: sendTimeSeries_write s1)
  have e2: "\<not> exited ?s2" unfolding s2' using assms(1) by (simp add: sendTimeSeries_write s1)
  have o2: "opentsdb ?s2 = Some ?k" unfolding s2' by (simp add: sendTimeSeries_write)
  have w2: "cb \<in> set (writing ?s2)" unfolding s2' by (simp add: sendTimeSeries_write)
  have d2: "trace (step ?s2 (Write_done cb r)) = trace ?s2 @ [CallerCallback cb r]"
    using e2 w2 by (simp add: step_def emit_def)
  show "let s2 = run s [Call_addTimeSeries metric cb None a, Socket_connect ?k accepted]
        in \<not> exited s2 \<and> opentsdb s2 = Some ?k \<and> cb \<in> set (writing s2) \<and>
           trace s2 = trace s @
             [NetCreateConnection (opentsdb_port cfg) (opentsdb_host cfg) ?k,
              LogInfo ''Connected to OpenTSDB.'',
              SocketWrite ?k (''put '' @ metric @ [CHR 0x0A])] @
             (if accepted then [StatTiming ''opentsdb.write.time'']
              else [StatIncrement ''opentsdb.write.delayed'',
                    LogInfo ''OpenTSDB data queued for writing'']) \<and>
           trace (step s2 (Write_done cb r)) = trace s2 @ [CallerCallback cb r]"
    unfolding run2 Let_def using e2 o2 w2 t2 d2 by blast
  let ?s3 = "step ?s1 (Socket_error ?k err)"
  have mem: "?k \<in> fst ` set (connecting ?s1)"
    by (simp add: s1)
  have s3: "?s3 = connectionError err ?s1"
    using mem by (simp add: step_live [OF live])
  have run3: "run s [Call_addTimeSeries metric cb None a, Socket_error ?k err] = ?s3"
    by (simp add: run_Cons run_Nil)
  have e3: "exited ?s3" unfolding s3 by (simp add: connectionError_result)
  have c3: "callbacks_of (trace ?s3) = callbacks_of (trace s)"
    unfolding s3 by (simp add: connectionError_result s1 callbacks_of_def)
  show "let s2 = run s [Call_addTimeSeries metric cb None a, Socket_error ?k err]
        in exited s2 \<and> callbacks_of (trace s2) = callbacks_of (trace s) \<and>
           (\<forall>evs. callbacks_of (trace (run s2 evs)) = callbacks_of (trace s))"
    unfolding run3 Let_def using e3 c3 by (simp add: run_exited)
qed

text \<open>The theorem at a write after a network error, whose data the new socket fails to send.\<close>

theorem addTimeSeries_reconnect_errors_witness:
  "\<not> exited down_state \<and> needs_reconnect down_state \<and>
   localConfig down_state = Some example_config \<and> sockets_known down_state \<and>
   trace (run down_state [Call_addTimeSeries put_line 1 None True, Socket_connect 1 True,
                          Write_done 1 (Some ''EPIPE'')]) =
     trace down_state @
       [NetCreateConnection ''4242'' ''tsdb.local'' 1, LogInfo ''Connected to OpenTSDB.'',
        SocketWrite 1 (''put '' @ put_line @ [CHR 0x0A]), StatTiming ''opentsdb.write.time'',
        CallerCallback 1 (Some ''EPIPE'')]"
proof -
  have known: "sockets_known down_state"
    unfolding down_state_def by (rule sockets_known_reachable)
  have split: "run down_state [Call_addTimeSeries put_line 1 None True, Socket_connect 1 True,
                          Write_done 1 (Some ''EPIPE'')] =
     step (run down_state [Call_addTimeSeries put_line 1 None True, Socket_connect 1 True])
       (Write_done 1 (Some ''EPIPE''))"
    by (simp add: run_Cons run_Nil)
  let ?s2 = "run down_state [Call_addTimeSeries put_line 1 None True, Socket_connect 1 True]"
  from addTimeSeries_reconnect_errors [OF down_state_facts(1,2,3) known,
      of put_line 1 True True "Some ''EPIPE''" "''ECONNREFUSED''"]
  have t: "trace ?s2 = trace down_state @
       [NetCreateConnection ''4242'' ''tsdb.local'' 1, LogInfo ''Connected to OpenTSDB.'',
        SocketWrite 1 (''put '' @ put_line @ [CHR 0x0A]), StatTiming ''opentsdb.write.time'']"
    and d: "trace (step ?s2 (Write_done 1 (Some ''EPIPE''))) =
              trace ?s2 @ [CallerCallback 1 (Some ''EPIPE'')]"
    by (simp_all add: Let_def down_state_facts(4) example_config_def)
  have "trace (step ?s2 (Write_done 1 (Some ''EPIPE''))) = trace down_state @
       [NetCreateConnection ''4242'' ''tsdb.local'' 1, LogInfo ''Connected to OpenTSDB.'',
        SocketWrite 1 (''put '' @ put_line @ [CHR 0x0A]), StatTiming ''opentsdb.write.time'',
        CallerCallback 1 (Some ''EPIPE'')]"
    unfolding d t by simp
  then show ?thesis
    unfolding split using down_state_facts(1,2,3) known by simp
qed

text \<open>
  A write after a network error whose new connection is refused: the process ends and
  the caller's callback is not called.
\<close>

theorem addTimeSeries_reconnect_failure_counterexample:
  "needs_reconnect down_state \<and>
   exited (run down_state [Call_addTimeSeries put_line 1 None True,
                           Socket_error 1 ''ECONNREFUSED'']) \<and>
   caller_callbacks (trace (run down_state [Call_addTimeSeries put_line 1 None True,
                                            Socket_error 1 ''ECONNREFUSED''])) = []"
  unfolding down_state_def put_line_def by code_simp

text \<open>
  Claim C9, as the code has it. Each write that finds the connection absent or
  unwritable opens a connection of its own: after any number of such writes in a row,
  with no network event between them, as many new connections have been asked for.
\<close>

theorem addTimeSeries_reconnect_per_call:
  assumes "\<not> exited s" and "needs_reconnect s" and "localConfig s = Some cfg"
  shows "connection_attempts
           (trace (run s (map (\<lambda>(metric, cb, accepted). Call_addTimeSeries metric cb None accepted) calls))) =
         connection_attempts (trace s) + length calls"
  using assms
proof (induction calls arbitrary: s)
  case Nil
  show ?case by (simp add: run_Nil)
next
  case (Cons c calls)
  obtain metric cb accepted where c: "c = (metric, cb, accepted)" by (cases c)
  let ?s1 = "step s (Call_addTimeSeries metric cb None accepted)"
  have s1: "?s1 = s\<lparr>localConfig := Some cfg,
       next_socket := Suc (next_socket s),
       connecting := connecting s @ [(next_socket s, SendTimeSeries metric cb)],
       trace := trace s @ [NetCreateConnection (opentsdb_port cfg) (opentsdb_host cfg) (next_socket s)]\<rparr>"
    by (rule step_addTimeSeries_reconnect [OF Cons.prems])
  have "\<not> exited ?s1" "needs_reconnect ?s1" "localConfig ?s1 = Some cfg"
    using Cons.prems by (simp_all add: s1 needs_reconnect_def split: option.splits)
  then have "connection_attempts
           (trace (run ?s1 (map (\<lambda>(metric, cb, accepted). Call_addTimeSeries metric cb None accepted) calls))) =
         connection_attempts (trace ?s1) + length calls"
    by (rule Cons.IH)
  moreover have "connection_attempts (trace ?s1) = connection_attempts (trace s) + 1"
    by (simp add: s1 connection_attempts_append) (simp add: connection_attempts_def)
  ultimately show ?case by (simp add: c run_Cons)
qed

text \<open>The theorem at three writes after a network error.\<close>

theorem addTimeSeries_reconnect_per_call_witness:
  "\<not> exited down_state \<and> needs_reconnect down_state \<and>
   localConfig down_state = Some example_config \<and>
   connection_attempts (trace down_state) = 1 \<and>
   connection_attempts
     (trace (run down_state [Call_addTimeSeries put_line 1 None True,
                             Call_addTimeSeries put_line 2 None True,
                             Call_addTimeSeries put_line 3 None False])) = 4"
proof -
  have a: "connection_attempts (trace down_state) = 1"
    by (simp add: down_state_facts(5) connection_attempts_def)
  from addTimeSeries_reconnect_per_call [OF down_state_facts(1,2,3),
      of "[(put_line, 1, True), (put_line, 2, True), (put_line, 3, False)]"]
  show ?thesis
    using down_state_facts(1,2,3) a by simp
qed

text \<open>
  Two writes in a row after a network error ask for two connections, not one; both
  sockets are then connecting.
\<close>

theorem addTimeSeries_two_reconnects_counterexample:
  "needs_reconnect down_state \<and>
   connection_attempts (trace down_state) = 1 \<and>
   connection_attempts
     (trace (run down_state [Call_addTimeSeries put_line 1 None True,
                             Call_addTimeSeries put_line 2 None True])) = 3 \<and>
   connecting (run down_state [Call_addTimeSeries put_line 1 None True,
                               Call_addTimeSeries put_line 2 None True]) =
     [(1, SendTimeSeries put_line 1), (2, SendTimeSeries put_line 2)]"
  unfolding down_state_def put_line_def by code_simp

subsection \<open>A write to a full buffer\<close>

lemma caller_callbacks_append:
  "caller_callbacks (xs @ ys) = caller_callbacks xs @ caller_callbacks ys"
  by (simp add: caller_callbacks_def)

text \<open>
  Claim C7, as the code has it. Let the connection be open and writable and let
  \<^verbatim>\<open>socket.write\<close> return false. The call writes the line, counts the write as delayed and
  logs at info level that the data is queued; it ends neither the process nor calls the
  caller's callback, which it has handed to the socket. When the socket is done with the
  write, the caller's callback is called with what the socket reports: no error, or the
  error of the write.
\<close>

theorem addTimeSeries_buffer_full_deferred:
  assumes "\<not> exited s" and "opentsdb s = Some sock" and "sock \<in> set (writable s)"
  shows "(let s1 = step s (Call_addTimeSeries metric cb throws False)
          in \<not> exited s1 \<and>
             trace s1 = trace s @
               [SocketWrite sock (''put '' @ metric @ [CHR 0x0A]),
                StatIncrement ''opentsdb.write.delayed'',
                LogInfo ''OpenTSDB data queued for writing''] \<and>
             caller_callbacks (trace s1) = caller_callbacks (trace s) \<and>
             cb \<in> set (writing s1) \<and>
             (\<forall>r. trace (step s1 (Write_done cb r)) = trace s1 @ [CallerCallback cb r]))"
proof -
  have nr: "\<not> needs_reconnect s"
    using assms(2,3) by (simp add: needs_reconnect_def)
  let ?s1 = "step s (Call_addTimeSeries metric cb throws False)"
  have s1: "?s1 = sendTimeSeries metric cb False None s"
    using assms(1) nr by (simp add: step_def addTimeSeries_def)
  have e1: "\<not> exited ?s1" unfolding s1 using assms(1,2) by (simp add: sendTimeSeries_write)
  have t1: "trace ?s1 = trace s @
               [SocketWrite sock (''put '' @ metric @ [CHR 0x0A]),
                StatIncrement ''opentsdb.write.delayed'',
                LogInfo ''OpenTSDB data queued for writing'']"
    unfolding s1 using assms(2) by (simp add: sendTimeSeries_write)
  have c1: "caller_callbacks (trace ?s1) = caller_callbacks (trace s)"
    unfolding t1 caller_callbacks_append by (simp add: caller_callbacks_def)
  have w1: "cb \<in> set (writing ?s1)"
    unfolding s1 using assms(2) by (simp add: sendTimeSeries_write)
  have d1: "\<forall>r. trace (step ?s1 (Write_done cb r)) = trace ?s1 @ [CallerCallback cb r]"
    using e1 w1 by (simp add: step_def emit_def)
  show ?thesis unfolding Let_def using e1 t1 c1 w1 d1 by blast
qed

text \<open>The theorem at a write on the connection made at startup, which the socket then sends.\<close>

theorem addTimeSeries_buffer_full_deferred_witness:
  "\<not> exited up_state \<and> opentsdb up_state = Some 0 \<and> 0 \<in> set (writable up_state) \<and>
   trace (step up_state (Call_addTimeSeries put_line 1 None False)) =
     trace up_state @
       [SocketWrite 0 (''put '' @ put_line @ [CHR 0x0A]), StatIncrement ''opentsdb.write.delayed'',
        LogInfo ''OpenTSDB data queued for writing''] \<and>
   caller_callbacks (trace (step up_state (Call_addTimeSeries put_line 1 None False))) = [] \<and>
   caller_callbacks (trace (step (step up_state (Call_addTimeSeries put_line 1 None False))
                              (Write_done 1 None))) = [(1, None)]"
proof -
  have none: "caller_callbacks (trace up_state) = []"
    by (simp add: up_state_facts(4) caller_callbacks_def)
  from addTimeSeries_buffer_full_deferred [OF up_state_facts(1,2,3), of put_line 1 None]
  show ?thesis
    using up_state_facts(1,2,3) none by (simp add: Let_def caller_callbacks_append) (simp add: caller_callbacks_def)
qed

text \<open>
  The same write, which the socket then fails to send: the call itself reported nothing
  to the caller, and the caller's callback gets the error.
\<close>

theorem addTimeSeries_buffer_full_error_counterexample:
  "opentsdb up_state = Some 0 \<and> 0 \<in> set (writable up_state) \<and>
   caller_callbacks (trace (run up_state [Call_addTimeSeries put_line 1 None False])) = [] \<and>
   caller_callbacks (trace (run up_state [Call_addTimeSeries put_line 1 None False,
                                          Write_done 1 (Some ''EPIPE'')])) =
     [(1, Some ''EPIPE'')]"
  unfolding up_state_def put_line_def by code_simp

end
